theory Spec2Isabelle
  imports Complex_Main
begin

section \<open>FloatChat ARGO: the client application of src/frontend/app.js\<close>

text \<open>
  The theory embeds the class \<open>FloatChatApp\<close> of \<^verbatim>\<open>src/frontend/app.js\<close>: its fields, the
  part of the document and of local storage it reads and writes, its methods, and the
  deferred callbacks it registers with \<open>setTimeout\<close>.

  Conventions of the model.
  \<^item> A text typed by the user, a page name or a stored token is a \<open>string\<close>: a list of
    8-bit characters, that is, a JavaScript string all of whose code units are below 256.
  \<^item> A string that comes out of \<open>atob\<close> or \<open>JSON.parse\<close> is a list of code units
    (\<open>nat list\<close>), since a \<open>\uXXXX\<close> escape can denote any 16-bit unit.
  \<^item> JavaScript numbers are modelled by their exact value (\<open>rat\<close>, \<open>int\<close>, \<open>nat\<close>);
    the rounding of IEEE doubles is not modelled.
  \<^item> \<open>Date.now()\<close> is the field \<open>clock\<close> of the state (milliseconds); time passes
    between operations only, through \<open>elapse\<close>, which also runs the callbacks that fall due.
  \<^item> The elements of the static page (\<open>main-content\<close>, \<open>loginBtn\<close>, \<open>logoutBtn\<close>,
    \<open>authModal\<close>, \<open>modalBody\<close>) exist; an element that the application renders itself
    exists while the markup that contains it is displayed, and a method that reaches for
    a missing one throws a \<open>TypeError\<close>, as \<open>null.value\<close> does.
\<close>

subsection \<open>Strings\<close>

definition lower_char :: "char \<Rightarrow> char" where
  \<comment> \<open>\<open>toLowerCase\<close> on one code unit below 256: A-Z, and the Latin-1 capitals except the
      multiplication sign.\<close>
  "lower_char c =
     (let n = (of_char c :: nat)
      in if (65 \<le> n \<and> n \<le> 90) \<or> (192 \<le> n \<and> n \<le> 222 \<and> n \<noteq> 215)
         then char_of (n + 32) else c)"

definition toLowerCase :: "string \<Rightarrow> string" where
  "toLowerCase s = map lower_char s"

fun startsWith :: "'a list \<Rightarrow> 'a list \<Rightarrow> bool" where
  "startsWith s [] = True"
| "startsWith [] (k # ks) = False"
| "startsWith (c # cs) (k # ks) = (c = k \<and> startsWith cs ks)"

fun includes_str :: "'a list \<Rightarrow> 'a list \<Rightarrow> bool" where
  \<comment> \<open>\<open>s.includes(k)\<close>: \<open>k\<close> occurs in \<open>s\<close> as a contiguous substring.\<close>
  "includes_str [] k = (k = [])"
| "includes_str (c # cs) k = (startsWith (c # cs) k \<or> includes_str cs k)"

definition is_trim_char :: "char \<Rightarrow> bool" where
  \<comment> \<open>The white space and line terminators below 256 that \<open>trim\<close> removes.\<close>
  "is_trim_char c = ((of_char c :: nat) \<in> {9, 10, 11, 12, 13, 32, 160})"

definition trim :: "string \<Rightarrow> string" where
  "trim s = rev (dropWhile is_trim_char (rev (dropWhile is_trim_char s)))"

fun show_nat :: "nat \<Rightarrow> string" where
  "show_nat n =
     (if n < 10 then [char_of (48 + n)]
      else show_nat (n div 10) @ [char_of (48 + n mod 10)])"

function show_digits :: "int \<Rightarrow> string" where
  \<comment> \<open>The decimal digits of a non-negative integer.\<close>
  "show_digits i =
     (if i < 10 then [char_of (48 + i)]
      else show_digits (i div 10) @ [char_of (48 + i mod 10)])"
  by pat_completeness auto
termination
  by (relation "measure nat") auto

declare show_nat.simps [simp del]

declare show_digits.simps [simp del]

definition show_int :: "int \<Rightarrow> string" where
  \<comment> \<open>The text of an integer-valued number (below \<open>10^21\<close> in size, where JavaScript
      switches to exponent notation).\<close>
  "show_int i = (if i < 0 then CHR ''-'' # show_digits (- i) else show_digits i)"

subsection \<open>Float records\<close>

text \<open>The field \<open>id\<close> of a float is \<open>float_id\<close> here, since \<open>id\<close> is the identity function.\<close>

record argo_float =
  float_id :: string
  lat :: rat
  lng :: rat
  status :: string
  temp :: rat
  salinity :: rat

definition initial_floats :: "argo_float list" where
  "initial_floats =
     [\<lparr>float_id = ''2901623'', lat = - 10.5, lng = 67.8, status = ''active'',
        temp = 28.5, salinity = 35.1\<rparr>,
      \<lparr>float_id = ''2901624'', lat = - 15.2, lng = 72.1, status = ''active'',
        temp = 27.8, salinity = 35.3\<rparr>,
      \<lparr>float_id = ''2901625'', lat = - 8.7, lng = 65.3, status = ''active'',
        temp = 29.1, salinity = 34.9\<rparr>,
      \<lparr>float_id = ''2901626'', lat = - 12.8, lng = 70.5, status = ''maintenance'',
        temp = 25.2, salinity = 35.0\<rparr>,
      \<lparr>float_id = ''2901627'', lat = - 6.2, lng = 68.9, status = ''active'',
        temp = 28.8, salinity = 35.2\<rparr>]"

subsection \<open>The response resolver\<close>

definition deg :: string where
  \<comment> \<open>The degree sign, U+00B0.\<close>
  "deg = [CHR 0xB0]"

definition temperature_text :: "argo_float list \<Rightarrow> string" where
  "temperature_text fl =
     ''I found temperature data from '' @ show_nat (length fl) @
     '' active floats. Average surface temperature is 28.1'' @ deg @
     ''C with variations from 25'' @ deg @ ''C to 29'' @ deg @
     ''C. The thermocline typically occurs around 80-120m depth.''"

definition salinity_text :: string where
  "salinity_text =
     ''Salinity measurements show typical values of 34.9-35.3 PSU across the monitored region. '' @
     ''Higher salinity is observed in the Arabian Sea due to evaporation effects.''"

definition location_text :: "argo_float list \<Rightarrow> string" where
  "location_text fl =
     ''Currently tracking '' @ show_nat (length fl) @
     '' ARGO floats across the Indian Ocean. Most recent data shows floats distributed between 6'' @
     deg @ ''S-16'' @ deg @ ''S latitude and 65'' @ deg @ ''E-73'' @ deg @ ''E longitude.''"

definition float_text :: "argo_float list \<Rightarrow> string" where
  "float_text fl =
     ''ARGO float network includes '' @
     show_nat (length (filter (\<lambda>f. status f = ''active'') fl)) @
     '' active floats. Each float profiles to 2000m depth every 10 days, collecting T/S data.''"

definition profile_text :: string where
  "profile_text =
     ''Ocean profiles show typical tropical stratification with warm surface waters (28-29'' @
     deg @ ''C), sharp thermocline (100-200m), and cooler deep waters (2-4'' @ deg @
     ''C at 2000m).''"

definition fallback_text :: string where
  \<open>fallback_text =
     ''I can help you explore ARGO float data including temperature, salinity, and location information. '' @
     ''Try asking about specific parameters like "show temperature profiles" or "where are the nearest floats".''\<close>

definition responses :: "argo_float list \<Rightarrow> (string \<times> string) list" where
  \<comment> \<open>\<open>Object.entries(responses)\<close>: the own string keys in insertion order.\<close>
  "responses fl =
     [(''temperature'', temperature_text fl),
      (''salinity'', salinity_text),
      (''location'', location_text fl),
      (''float'', float_text fl),
      (''profile'', profile_text)]"

fun first_match :: "string \<Rightarrow> (string \<times> string) list \<Rightarrow> string option" where
  \<comment> \<open>The \<open>for ... of\<close> loop: return at the first entry whose key the query includes.\<close>
  "first_match queryLower [] = None"
| "first_match queryLower ((key, response) # rest) =
     (if includes_str queryLower key then Some response else first_match queryLower rest)"

definition generateChatResponse :: "argo_float list \<Rightarrow> string \<Rightarrow> string" where
  "generateChatResponse fl query =
     (case first_match (toLowerCase query) (responses fl) of
        Some response \<Rightarrow> response
      | None \<Rightarrow> fallback_text)"

subsection \<open>Base64: \<open>btoa\<close> and \<open>atob\<close>\<close>

definition b64_alphabet :: string where
  "b64_alphabet = ''ABCDEFGHIJKLMNOPQRSTUVWXYZabcdefghijklmnopqrstuvwxyz0123456789+/''"

definition b64_char :: "nat \<Rightarrow> char" where
  "b64_char n = b64_alphabet ! (n mod 64)"

fun b64_encode :: "nat list \<Rightarrow> string" where
  "b64_encode (a # b # c # rest) =
     [b64_char (a div 4), b64_char ((a mod 4) * 16 + b div 16),
      b64_char ((b mod 16) * 4 + c div 64), b64_char (c mod 64)] @ b64_encode rest"
| "b64_encode [a, b] =
     [b64_char (a div 4), b64_char ((a mod 4) * 16 + b div 16),
      b64_char ((b mod 16) * 4), CHR ''='']"
| "b64_encode [a] = [b64_char (a div 4), b64_char ((a mod 4) * 16), CHR ''='', CHR ''='']"
| "b64_encode [] = []"

definition btoa :: "string \<Rightarrow> string" where
  \<comment> \<open>Every code unit of a \<open>string\<close> is below 256, so \<open>btoa\<close> does not throw here.\<close>
  "btoa s = b64_encode (map of_char s)"

fun index_of :: "'a \<Rightarrow> 'a list \<Rightarrow> nat option" where
  "index_of x [] = None"
| "index_of x (y # ys) = (if x = y then Some 0 else map_option Suc (index_of x ys))"

fun b64_values :: "string \<Rightarrow> nat list option" where
  "b64_values [] = Some []"
| "b64_values (c # cs) =
     (case index_of c b64_alphabet of
        None \<Rightarrow> None
      | Some v \<Rightarrow> map_option ((#) v) (b64_values cs))"

fun b64_decode :: "nat list \<Rightarrow> nat list" where
  "b64_decode (a # b # c # d # rest) =
     [a * 4 + b div 16, (b mod 16) * 16 + c div 4, (c mod 4) * 64 + d] @ b64_decode rest"
| "b64_decode [a, b, c] = [a * 4 + b div 16, (b mod 16) * 16 + c div 4]"
| "b64_decode [a, b] = [a * 4 + b div 16]"
| "b64_decode [a] = []"
| "b64_decode [] = []"

definition is_ascii_ws :: "char \<Rightarrow> bool" where
  "is_ascii_ws c = ((of_char c :: nat) \<in> {9, 10, 12, 13, 32})"

definition strip_padding :: "string \<Rightarrow> string" where
  "strip_padding s =
     (if length s mod 4 = 0 then
        (case rev s of
           p # q # r \<Rightarrow>
             if p = CHR ''='' then (if q = CHR ''='' then rev r else rev (q # r)) else s
         | _ \<Rightarrow> s)
      else s)"

definition atob :: "string \<Rightarrow> nat list option" where
  \<comment> \<open>The forgiving-base64 decode; \<open>None\<close> is the \<open>InvalidCharacterError\<close> it throws.
      The result is the list of code units (bytes) of the decoded binary string.\<close>
  "atob s =
     (let d = strip_padding (filter (\<lambda>c. \<not> is_ascii_ws c) s)
      in if length d mod 4 = 1 then None
         else map_option b64_decode (b64_values d))"

subsection \<open>JSON values and \<open>JSON.parse\<close>\<close>

datatype json =
    JNull
  | JBool bool
  | JNum rat
  | JStr "nat list"
  | JArr "json list"
  | JObj "(nat list \<times> json) list"

definition lit :: "string \<Rightarrow> nat list" where
  \<comment> \<open>The code units of a string.\<close>
  "lit s = map of_char s"

definition is_json_ws :: "nat \<Rightarrow> bool" where
  "is_json_ws c = (c \<in> {9, 10, 13, 32})"

definition skip_ws :: "nat list \<Rightarrow> nat list" where
  "skip_ws s = dropWhile is_json_ws s"

definition is_digit :: "nat \<Rightarrow> bool" where
  "is_digit c = (48 \<le> c \<and> c \<le> 57)"

definition digits_val :: "nat list \<Rightarrow> int" where
  "digits_val ds = foldl (\<lambda>a d. 10 * a + int (d - 48)) 0 ds"

definition hex_digit :: "nat \<Rightarrow> nat option" where
  "hex_digit c =
     (if is_digit c then Some (c - 48)
      else if 65 \<le> c \<and> c \<le> 70 then Some (c - 55)
      else if 97 \<le> c \<and> c \<le> 102 then Some (c - 87)
      else None)"

definition decimal_value :: "bool \<Rightarrow> nat list \<Rightarrow> nat list \<Rightarrow> int \<Rightarrow> rat" where
  \<comment> \<open>The value of sign, integer digits, fraction digits and decimal exponent.\<close>
  "decimal_value neg ip fp e =
     (if neg then - 1 else 1) * (of_int (digits_val (ip @ fp)) / 10 ^ length fp) *
     (if 0 \<le> e then 10 ^ nat e else 1 / 10 ^ nat (- e))"

definition scan_fraction :: "nat list \<Rightarrow> nat list \<times> nat list" where
  \<comment> \<open>After a decimal point: the fraction digits and the rest.\<close>
  "scan_fraction s = (takeWhile is_digit s, dropWhile is_digit s)"

definition scan_exponent :: "nat list \<Rightarrow> (int \<times> nat list) option" where
  \<comment> \<open>After \<open>e\<close> or \<open>E\<close>: an optional sign and at least one digit.\<close>
  "scan_exponent s =
     (let neg = (s \<noteq> [] \<and> hd s = 45);
          s1 = (if s \<noteq> [] \<and> (hd s = 45 \<or> hd s = 43) then tl s else s);
          ep = takeWhile is_digit s1
      in if ep = [] then None
         else Some (if neg then - digits_val ep else digits_val ep,
                    dropWhile is_digit s1))"

definition json_number :: "nat list \<Rightarrow> (rat \<times> nat list) option" where
  "json_number s =
     (let neg = (s \<noteq> [] \<and> hd s = 45);
          s1 = (if neg then tl s else s);
          ip = takeWhile is_digit s1;
          s2 = dropWhile is_digit s1
      in if ip = [] \<or> (1 < length ip \<and> hd ip = 48) then None
         else
           (case (if s2 \<noteq> [] \<and> hd s2 = 46
                  then (let (fp, s3) = scan_fraction (tl s2)
                        in if fp = [] then None else Some (fp, s3))
                  else Some ([], s2)) of
              None \<Rightarrow> None
            | Some (fp, s3) \<Rightarrow>
                (case (if s3 \<noteq> [] \<and> (hd s3 = 101 \<or> hd s3 = 69)
                       then scan_exponent (tl s3) else Some (0, s3)) of
                   None \<Rightarrow> None
                 | Some (e, s4) \<Rightarrow> Some (decimal_value neg ip fp e, s4))))"

definition simple_escape :: "nat \<Rightarrow> nat option" where
  "simple_escape e =
     (if e = 34 \<or> e = 92 \<or> e = 47 then Some e
      else if e = 98 then Some 8
      else if e = 102 then Some 12
      else if e = 110 then Some 10
      else if e = 114 then Some 13
      else if e = 116 then Some 9
      else None)"

definition hex4 :: "nat \<Rightarrow> nat \<Rightarrow> nat \<Rightarrow> nat \<Rightarrow> nat option" where
  "hex4 a b c d =
     (case (hex_digit a, hex_digit b, hex_digit c, hex_digit d) of
        (Some w, Some x, Some y, Some z) \<Rightarrow> Some (((w * 16 + x) * 16 + y) * 16 + z)
      | _ \<Rightarrow> None)"

definition cons_unit :: "nat \<Rightarrow> (nat list \<times> nat list) option \<Rightarrow> (nat list \<times> nat list) option" where
  "cons_unit v r = map_option (\<lambda>(us, rest). (v # us, rest)) r"

fun json_chars :: "nat list \<Rightarrow> (nat list \<times> nat list) option" where
  \<comment> \<open>After the opening quote: the code units of the string and the rest of the input.\<close>
  "json_chars [] = None"
| "json_chars (c # r) =
     (if c = 34 then Some ([], r)
      else if c = 92 then
        (case r of
           [] \<Rightarrow> None
         | e # r1 \<Rightarrow>
             if e = 117 then
               (case r1 of
                  h1 # h2 # h3 # h4 # r2 \<Rightarrow>
                    (case hex4 h1 h2 h3 h4 of
                       None \<Rightarrow> None
                     | Some v \<Rightarrow> cons_unit v (json_chars r2))
                | _ \<Rightarrow> None)
             else
               (case simple_escape e of
                  None \<Rightarrow> None
                | Some v \<Rightarrow> cons_unit v (json_chars r1)))
      else if c < 32 then None
      else cons_unit c (json_chars r))"

fun json_value :: "nat \<Rightarrow> nat list \<Rightarrow> (json \<times> nat list) option"
  and json_elements :: "nat \<Rightarrow> nat list \<Rightarrow> json list \<Rightarrow> (json \<times> nat list) option"
  and json_members :: "nat \<Rightarrow> nat list \<Rightarrow> (nat list \<times> json) list \<Rightarrow> (json \<times> nat list) option"
where
  "json_value 0 s = None"
| "json_value (Suc n) s =
     (case skip_ws s of
        [] \<Rightarrow> None
      | c # r \<Rightarrow>
          if c = 123 then
            (case skip_ws r of
               [] \<Rightarrow> None
             | d # r1 \<Rightarrow> if d = 125 then Some (JObj [], r1) else json_members n (d # r1) [])
          else if c = 91 then
            (case skip_ws r of
               [] \<Rightarrow> None
             | d # r1 \<Rightarrow> if d = 93 then Some (JArr [], r1) else json_elements n (d # r1) [])
          else if c = 34 then map_option (\<lambda>(us, rest). (JStr us, rest)) (json_chars r)
          else if startsWith (c # r) (lit ''true'') then Some (JBool True, drop 4 (c # r))
          else if startsWith (c # r) (lit ''false'') then Some (JBool False, drop 5 (c # r))
          else if startsWith (c # r) (lit ''null'') then Some (JNull, drop 4 (c # r))
          else map_option (\<lambda>(x, rest). (JNum x, rest)) (json_number (c # r)))"
| "json_elements 0 s acc = None"
| "json_elements (Suc n) s acc =
     (case json_value n s of
        None \<Rightarrow> None
      | Some (v, r) \<Rightarrow>
          (case skip_ws r of
             [] \<Rightarrow> None
           | c # r1 \<Rightarrow>
               if c = 44 then json_elements n r1 (acc @ [v])
               else if c = 93 then Some (JArr (acc @ [v]), r1)
               else None))"
| "json_members 0 s acc = None"
| "json_members (Suc n) s acc =
     (case skip_ws s of
        [] \<Rightarrow> None
      | q # r \<Rightarrow>
          if q \<noteq> 34 then None
          else
            (case json_chars r of
               None \<Rightarrow> None
             | Some (k, r1) \<Rightarrow>
                 (case skip_ws r1 of
                    [] \<Rightarrow> None
                  | c # r2 \<Rightarrow>
                      if c \<noteq> 58 then None
                      else
                        (case json_value n r2 of
                           None \<Rightarrow> None
                         | Some (v, r3) \<Rightarrow>
                             (case skip_ws r3 of
                                [] \<Rightarrow> None
                              | d # r4 \<Rightarrow>
                                  if d = 44 then json_members n r4 (acc @ [(k, v)])
                                  else if d = 125 then Some (JObj (acc @ [(k, v)]), r4)
                                  else None)))))"

definition JSON_parse :: "nat list \<Rightarrow> json option" where
  \<comment> \<open>\<open>None\<close> is the \<open>SyntaxError\<close> that \<open>JSON.parse\<close> throws.\<close>
  "JSON_parse s =
     (case json_value (2 * length s + 2) s of
        None \<Rightarrow> None
      | Some (v, r) \<Rightarrow> if skip_ws r = [] then Some v else None)"

subsection \<open>Property access, truthiness and \<open>ToNumber\<close> on parsed values\<close>

definition get_prop :: "json \<Rightarrow> nat list \<Rightarrow> json option" where
  \<comment> \<open>\<open>v.k\<close> for a property name \<open>k\<close> that no prototype defines (\<open>exp\<close>, \<open>name\<close>,
      \<open>username\<close>, \<open>role\<close>): the own property of an object, where the last of several
      members with one key wins; \<open>None\<close> is \<open>undefined\<close>.\<close>
  "get_prop v k = (case v of JObj kvs \<Rightarrow> map_of (rev kvs) k | _ \<Rightarrow> None)"

datatype jsnumber = NaN | NegInfinity | Finite rat | PosInfinity

definition is_js_space :: "nat \<Rightarrow> bool" where
  \<comment> \<open>White space and line terminators, as \<open>StringToNumber\<close> strips them.\<close>
  "is_js_space c =
     (c \<in> {9, 10, 11, 12, 13, 32, 160, 5760, 8232, 8233, 8239, 8287, 12288, 65279}
      \<or> (8192 \<le> c \<and> c \<le> 8202))"

definition trim_units :: "nat list \<Rightarrow> nat list" where
  "trim_units s = rev (dropWhile is_js_space (rev (dropWhile is_js_space s)))"

definition radix_digit :: "nat \<Rightarrow> nat \<Rightarrow> nat option" where
  "radix_digit b c = (case hex_digit c of Some v \<Rightarrow> if v < b then Some v else None | None \<Rightarrow> None)"

fun radix_val :: "nat \<Rightarrow> int \<Rightarrow> nat list \<Rightarrow> int option" where
  "radix_val b a [] = Some a"
| "radix_val b a (c # cs) =
     (case radix_digit b c of
        None \<Rightarrow> None
      | Some v \<Rightarrow> radix_val b (int b * a + int v) cs)"

definition radix_literal :: "nat list \<Rightarrow> int option" where
  \<comment> \<open>\<open>0x\<close>, \<open>0o\<close> and \<open>0b\<close> literals: a prefix and at least one digit of the radix.\<close>
  "radix_literal t =
     (case t of
        z # p # d # ds \<Rightarrow>
          if z \<noteq> 48 then None
          else if p = 120 \<or> p = 88 then radix_val 16 0 (d # ds)
          else if p = 111 \<or> p = 79 then radix_val 8 0 (d # ds)
          else if p = 98 \<or> p = 66 then radix_val 2 0 (d # ds)
          else None
      | _ \<Rightarrow> None)"

definition str_decimal :: "nat list \<Rightarrow> rat option" where
  \<comment> \<open>An unsigned decimal literal that spans the whole of \<open>t\<close>.\<close>
  "str_decimal t =
     (let ip = takeWhile is_digit t;
          r = dropWhile is_digit t;
          (fp, r1) = (if r \<noteq> [] \<and> hd r = 46 then scan_fraction (tl r) else ([], r))
      in if ip = [] \<and> fp = [] then None
         else if r1 = [] then Some (decimal_value False ip fp 0)
         else if hd r1 = 101 \<or> hd r1 = 69 then
           (case scan_exponent (tl r1) of
              Some (e, []) \<Rightarrow> Some (decimal_value False ip fp e)
            | _ \<Rightarrow> None)
         else None)"

definition StringToNumber :: "nat list \<Rightarrow> jsnumber" where
  "StringToNumber s =
     (let t = trim_units s
      in if t = [] then Finite 0
         else
           (case radix_literal t of
              Some n \<Rightarrow> Finite (of_int n)
            | None \<Rightarrow>
                (let neg = (hd t = 45);
                     t1 = (if hd t = 45 \<or> hd t = 43 then tl t else t)
                 in if t1 = lit ''Infinity'' then (if neg then NegInfinity else PosInfinity)
                    else
                      (case str_decimal t1 of
                         None \<Rightarrow> NaN
                       | Some x \<Rightarrow> Finite (if neg then - x else x)))))"

fun toPrimitive_throws :: "json \<Rightarrow> bool" where
  \<comment> \<open>\<open>ToPrimitive\<close> throws a \<open>TypeError\<close> on a parsed object with an own member
      \<open>toString\<close> (no member of a parsed object is callable, and the inherited
      \<open>valueOf\<close> returns the object), and on an array whose \<open>join\<close> meets such an object.\<close>
  "toPrimitive_throws (JObj kvs) = (lit ''toString'' \<in> set (map fst kvs))"
| "toPrimitive_throws (JArr xs) = list_ex toPrimitive_throws xs"
| "toPrimitive_throws v = False"

fun toNumber :: "json \<Rightarrow> jsnumber" where
  \<comment> \<open>\<open>ToNumber\<close> of a value on which \<open>ToPrimitive\<close> does not throw. An array goes
      through \<open>join\<close>: the empty string, the string of its only element (empty for
      \<open>null\<close>), or a text with a comma, which is no number.\<close>
  "toNumber JNull = Finite 0"
| "toNumber (JBool b) = Finite (if b then 1 else 0)"
| "toNumber (JNum x) = Finite x"
| "toNumber (JStr s) = StringToNumber s"
| "toNumber (JObj kvs) = NaN"
| "toNumber (JArr []) = Finite 0"
| "toNumber (JArr [v]) = (case v of JBool b \<Rightarrow> NaN | _ \<Rightarrow> toNumber v)"
| "toNumber (JArr (v # w # vs)) = NaN"

definition greater_than :: "jsnumber \<Rightarrow> rat \<Rightarrow> bool" where
  \<comment> \<open>\<open>a > b\<close> for a finite \<open>b\<close>; a comparison with \<open>NaN\<close> is false. The values are
      compared exactly, where JavaScript compares their nearest doubles: the two agree for
      an integer \<open>exp\<close> and a time of the size of a timestamp, and can differ for an \<open>exp\<close>
      with a fraction finer than a double resolves.\<close>
  "greater_than a b =
     (case a of Finite x \<Rightarrow> b < x | PosInfinity \<Rightarrow> True | _ \<Rightarrow> False)"

definition truthy :: "json \<Rightarrow> bool" where
  "truthy v =
     (case v of
        JNull \<Rightarrow> False
      | JBool b \<Rightarrow> b
      | JNum x \<Rightarrow> x \<noteq> 0
      | JStr s \<Rightarrow> s \<noteq> []
      | _ \<Rightarrow> True)"

subsection \<open>\<open>JSON.stringify\<close> of the token payload\<close>

definition hex_char :: "nat \<Rightarrow> char" where
  "hex_char n = ''0123456789abcdef'' ! (n mod 16)"

definition quote_char :: "char \<Rightarrow> string" where
  \<comment> \<open>One code unit below 256 inside a JSON string, as \<open>JSON.stringify\<close> writes it.\<close>
  "quote_char c =
     (let n = (of_char c :: nat)
      in if n = 34 then [CHR 0x5C, CHR 0x22]
         else if n = 92 then [CHR 0x5C, CHR 0x5C]
         else if n = 8 then [CHR 0x5C, CHR ''b'']
         else if n = 12 then [CHR 0x5C, CHR ''f'']
         else if n = 10 then [CHR 0x5C, CHR ''n'']
         else if n = 13 then [CHR 0x5C, CHR ''r'']
         else if n = 9 then [CHR 0x5C, CHR ''t'']
         else if n < 32 then [CHR 0x5C, CHR ''u'', CHR ''0'', CHR ''0'', hex_char (n div 16), hex_char n]
         else [c])"

definition quote :: "string \<Rightarrow> string" where
  "quote s = [CHR 0x22] @ concat (map quote_char s) @ [CHR 0x22]"

definition stringify_payload :: "string \<Rightarrow> string \<Rightarrow> string \<Rightarrow> int \<Rightarrow> string" where
  \<comment> \<open>\<open>JSON.stringify({username, role, name, exp})\<close>, the members in insertion order.\<close>
  \<open>stringify_payload username role name expiry =
     ''{"username":'' @ quote username @ '',"role":'' @ quote role @
     '',"name":'' @ quote name @ '',"exp":'' @ show_int expiry @ ''}''\<close>

subsection \<open>The markup of the chat transcript\<close>

text \<open>
  \<open>sendChatMessage\<close> and its callback extend the transcript with
  \<open>messagesContainer.innerHTML += ...\<close>: the text of the message is put into the template as
  it is, and the browser parses the result as markup. The model parses a fragment of
  HTML: character data and the tags \<open>p\<close> and \<open>div\<close> in the spellings of \<open>tag_literals\<close>. Every
  other text that contains a less-than sign, an ampersand, NUL or CR is outside the
  fragment, and the content of an element that received such a text is unknown from then
  on (\<open>None\<close>).

  The children of the container are kept as element nodes (its \<open>children\<close>; text directly
  inside the container, such as the line breaks of the templates, is not kept). The getter
  of \<open>innerHTML\<close> serialises these elements with all their end tags, and the setter parses
  the serialisation and the appended text in one pass: the elements of the fragment parse
  back to themselves and leave the parser in its initial state, so the old children stay
  and the appended text is parsed on its own.
\<close>

datatype tag = TagP | TagDiv

datatype node = Text string | Elem tag "string option" "node list"

datatype token = Char char | Start tag "string option" | End tag

definition tag_literals :: "(string \<times> token) list" where
  \<comment> \<open>The tags of the fragment, each in one spelling; none is a prefix of another.\<close>
  \<open>tag_literals =
     [(''<p>'', Start TagP None),
      (''</p>'', End TagP),
      (''<div>'', Start TagDiv None),
      (''</div>'', End TagDiv),
      (''<div class=message>'', Start TagDiv (Some ''message'')),
      (''<div class="message user">'', Start TagDiv (Some ''message user'')),
      (''<div class="message bot">'', Start TagDiv (Some ''message bot''))]\<close>

fun match_tag :: "string \<Rightarrow> (string \<times> token) list \<Rightarrow> (token \<times> nat) option" where
  "match_tag s [] = None"
| "match_tag s ((text, tok) # rest) =
     (if startsWith s text then Some (tok, length text) else match_tag s rest)"

definition is_text_char :: "char \<Rightarrow> bool" where
  \<comment> \<open>A character that the tokenizer passes on as itself: not the start of a tag or of a
      character reference, not NUL (dropped) and not CR (turned into LF).\<close>
  "is_text_char c = (c \<noteq> CHR ''<'' \<and> c \<noteq> CHR ''&'' \<and> c \<noteq> CHR 0x00 \<and> c \<noteq> CHR 0x0D)"

fun tokenize :: "string \<Rightarrow> token list option" where
  \<comment> \<open>\<open>None\<close>: the text leaves the fragment.\<close>
  "tokenize [] = Some []"
| "tokenize (c # cs) =
     (if is_text_char c then map_option ((#) (Char c)) (tokenize cs)
      else
        (case match_tag (c # cs) tag_literals of
           None \<Rightarrow> None
         | Some (tok, n) \<Rightarrow> map_option ((#) tok) (tokenize (drop (n - 1) cs))))"

type_synonym frame = "tag \<times> string option \<times> node list"

fun add_char :: "char \<Rightarrow> node list \<Rightarrow> node list" where
  \<comment> \<open>Insert a character: it joins a text node that is the last child.\<close>
  "add_char c [] = [Text [c]]"
| "add_char c [Text t] = [Text (t @ [c])]"
| "add_char c [Elem g a ks] = [Elem g a ks, Text [c]]"
| "add_char c (n # m # ns) = n # add_char c (m # ns)"

definition add_child :: "node \<Rightarrow> frame list \<Rightarrow> node list \<Rightarrow> frame list \<times> node list" where
  "add_child n st outer =
     (case st of
        [] \<Rightarrow> ([], outer @ [n])
      | (g, a, ks) # fs \<Rightarrow> ((g, a, ks @ [n]) # fs, outer))"

fun pop_until :: "tag \<Rightarrow> frame list \<Rightarrow> node list \<Rightarrow> frame list \<times> node list" where
  \<comment> \<open>Pop open elements until one with tag \<open>g\<close> has been popped; a popped element
      becomes the last child of the element below it.\<close>
  "pop_until g [] outer = ([], outer)"
| "pop_until g [(h, a, ks)] outer = ([], outer @ [Elem h a ks])"
| "pop_until g ((h, a, ks) # (h', a', ks') # fs) outer =
     (if h = g then ((h', a', ks' @ [Elem h a ks]) # fs, outer)
      else pop_until g ((h', a', ks' @ [Elem h a ks]) # fs) outer)"

fun close_all :: "frame list \<Rightarrow> node list \<Rightarrow> node list" where
  "close_all [] outer = outer"
| "close_all [(h, a, ks)] outer = outer @ [Elem h a ks]"
| "close_all ((h, a, ks) # (h', a', ks') # fs) outer =
     close_all ((h', a', ks' @ [Elem h a ks]) # fs) outer"

definition on_stack :: "tag \<Rightarrow> frame list \<Rightarrow> bool" where
  \<comment> \<open>An element with tag \<open>g\<close> is in scope (and in button scope): neither \<open>p\<close> nor \<open>div\<close>
      ends a scope, so it is in scope when it is open.\<close>
  "on_stack g st = (g \<in> set (map fst st))"

fun build :: "token list \<Rightarrow> frame list \<Rightarrow> node list \<Rightarrow> node list" where
  \<comment> \<open>The tree construction in the insertion mode "in body": \<open>st\<close> are the open elements
      above the root, innermost first, \<open>outer\<close> the children of the root so far. A start tag
      closes an open \<open>p\<close> and opens its element; the end tag of \<open>p\<close> closes the open \<open>p\<close> or,
      when there is none, inserts an empty one; the end tag of \<open>div\<close> closes up to the
      innermost open \<open>div\<close> or, when there is none, is ignored; the end of the text closes
      every element.\<close>
  "build [] st outer = close_all st outer"
| "build (Char c # ts) st outer =
     (case st of
        [] \<Rightarrow> build ts [] (add_char c outer)
      | (g, a, ks) # fs \<Rightarrow> build ts ((g, a, add_char c ks) # fs) outer)"
| "build (Start g a # ts) st outer =
     (let (st1, outer1) = (if on_stack TagP st then pop_until TagP st outer else (st, outer))
      in build ts ((g, a, []) # st1) outer1)"
| "build (End g # ts) st outer =
     (let (st1, outer1) =
            (if on_stack g st then pop_until g st outer
             else if g = TagP then add_child (Elem TagP None []) st outer
             else (st, outer))
      in build ts st1 outer1)"

definition parse_fragment :: "string \<Rightarrow> node list option" where
  "parse_fragment s = map_option (\<lambda>ts. build ts [] []) (tokenize s)"

definition elements :: "node list \<Rightarrow> node list" where
  "elements ns = filter (\<lambda>n. case n of Elem g a ks \<Rightarrow> True | Text t \<Rightarrow> False) ns"

definition innerHTML_append :: "string \<Rightarrow> node list option \<Rightarrow> node list option" where
  \<comment> \<open>\<open>element.innerHTML += markup\<close> on the element children of \<open>element\<close>.\<close>
  "innerHTML_append markup old =
     (case old of
        None \<Rightarrow> None
      | Some kids \<Rightarrow>
          (case parse_fragment markup of
             None \<Rightarrow> None
           | Some new \<Rightarrow> Some (kids @ elements new)))"

definition nl :: "nat \<Rightarrow> string" where
  \<comment> \<open>A line break and the indentation of the next line of a template.\<close>
  "nl n = CHR 0x0A # replicate n (CHR '' '')"

definition greeting :: string where
  "greeting =
     ''Hello! I'' @ [CHR 0x27] @ ''m your ARGO data assistant. Ask me about ocean temperature, '' @
     ''salinity, float locations, or any oceanographic data questions.''"

definition chat_messages_markup :: string where
  \<comment> \<open>What \<open>renderChatInterface\<close> puts inside the element \<open>chatMessages\<close>.\<close>
  \<open>chat_messages_markup =
     nl 24 @ ''<div class="message bot">'' @ nl 28 @ ''<p>'' @ greeting @ ''</p>'' @
     nl 24 @ ''</div>'' @ nl 20\<close>

definition user_markup :: "string \<Rightarrow> string" where
  \<comment> \<open>The template literal that \<open>sendChatMessage\<close> appends, with the message in it.\<close>
  \<open>user_markup message =
     nl 12 @ ''<div class="message user">'' @ nl 16 @ ''<p>'' @ message @ ''</p>'' @
     nl 12 @ ''</div>'' @ nl 8\<close>

definition bot_markup :: "string \<Rightarrow> string" where
  \<comment> \<open>The template literal that the deferred callback appends, with the reply in it.\<close>
  \<open>bot_markup response =
     nl 16 @ ''<div class="message bot">'' @ nl 20 @ ''<p>'' @ response @ ''</p>'' @
     nl 16 @ ''</div>'' @ nl 12\<close>

definition user_entry :: "string \<Rightarrow> node" where
  \<comment> \<open>One user message in the transcript: the element of the user template whose
      paragraph holds exactly the text \<open>m\<close>.\<close>
  "user_entry m =
     Elem TagDiv (Some ''message user'') [Text (nl 16), Elem TagP None [Text m], Text (nl 12)]"

definition bot_entry :: "string \<Rightarrow> node" where
  "bot_entry m =
     Elem TagDiv (Some ''message bot'') [Text (nl 20), Elem TagP None [Text m], Text (nl 16)]"

definition greeting_entry :: node where
  "greeting_entry =
     Elem TagDiv (Some ''message bot'') [Text (nl 28), Elem TagP None [Text greeting], Text (nl 24)]"

subsection \<open>The state: fields, document, storage, timers\<close>

datatype error = TypeError | LeafletError

datatype 'a outcome = Done 'a | Threw error 'a

fun state_of :: "'a outcome \<Rightarrow> 'a" where
  "state_of (Done s) = s"
| "state_of (Threw e s) = s"

definition and_then :: "'a outcome \<Rightarrow> ('a \<Rightarrow> 'a outcome) \<Rightarrow> 'a outcome" where
  \<comment> \<open>Statement sequencing: a throw skips the rest.\<close>
  "and_then r f = (case r of Done s \<Rightarrow> f s | Threw e s \<Rightarrow> Threw e s)"

record chat_turn =
  user :: string
  bot :: string
  timestamp :: int

datatype update_status = NoUpdate | UpdateSucceeded | UpdateFailed

datatype conversion_status = NoConversion | PleaseSelectFiles | Converting | ConversionCompleted

datatype user_content =
    UserEmpty
  | ChatInterface nat string
  | ArgoMap nat "argo_float list option"
  | OceanMap
  | UserProfile "json option" "json option" "json option" nat

datatype admin_content =
    AdminEmpty
  | ChatbotDB string update_status
  | NCConverter nat "string list" conversion_status "(string \<times> string) list option"
  | SystemStatus nat nat
  | UserManagement

datatype main_content =
    AsLoaded
  | HomePage
  | AboutPage
  | ContactPage
  | UserDashboard user_content
  | AdminDashboard admin_content

datatype callback =
    InitializeMap
  | AppendBotMessage nat string
  | FinishConversion nat "string list"

record app =
  currentUser :: "json option"
  currentPage :: string
  chatHistory :: "chat_turn list"
  argoFloats :: "argo_float list"
  authToken :: "string option"
  mainContent :: main_content
  loginBtnHidden :: bool
  logoutBtnHidden :: bool
  authModalHidden :: bool
  modalBody :: "(string \<times> string) option"
  transcripts :: "nat \<Rightarrow> node list option"
  nextElement :: nat
  timers :: "(int \<times> callback) list"
  alerts :: "string list"
  clock :: int

text \<open>
  The fields beyond those of the class:
  \<^item> \<open>authToken\<close> is the item \<open>authToken\<close> of local storage (\<open>None\<close>: no item).
  \<^item> \<open>mainContent\<close> is the markup inside \<open>main-content\<close>, one constructor per template; a
    dashboard holds what is inside \<open>user-content\<close> or \<open>admin-content\<close>.
    \<open>ChatInterface el v\<close>: the element \<open>chatMessages\<close> is the element \<open>el\<close> and
    \<open>chatInput.value\<close> is \<open>v\<close>. \<open>ArgoMap n m\<close>: the header counts \<open>n\<close> floats, and \<open>m\<close> is
    the list of floats drawn on the map and listed in \<open>floatList\<close> once \<open>initializeMap\<close> has
    run. \<open>UserProfile name username role n\<close>: the interpolated values. \<open>ChatbotDB text
    status\<close>: the value of \<open>trainingData\<close> and the marker in \<open>updateStatus\<close>.
    \<open>NCConverter el files status results\<close>: the elements \<open>conversionStatus\<close> and
    \<open>conversionResults\<close> of the rendering \<open>el\<close>, and the names of the selected files.
    \<open>SystemStatus floats sessions\<close>: the two interpolated counts.
  \<^item> \<open>modalBody\<close> is the login form inside the modal with the values of its inputs
    \<open>username\<close> and \<open>password\<close> (\<open>None\<close>: the form has not been rendered).
  \<^item> \<open>transcripts el\<close> is the list of element children of the \<open>chatMessages\<close> element
    \<open>el\<close>, or \<open>None\<close> when a text outside the modelled fragment of markup has reached
    it. Every rendering of the chat interface creates a new element; \<open>nextElement\<close> is the
    next unused one. A callback keeps the element it captured, displayed or not.
  \<^item> \<open>timers\<close> are the callbacks registered with \<open>setTimeout\<close>, with the time they are due.
  \<^item> \<open>alerts\<close> are the messages shown with \<open>alert\<close>, oldest first.
  Scrolling (\<open>scrollTop\<close>) is not part of the state.
\<close>

subsection \<open>Navigation and the modal\<close>

definition updateNavigation :: "app \<Rightarrow> app" where
  "updateNavigation st =
     (if (case currentUser st of None \<Rightarrow> False | Some v \<Rightarrow> truthy v)
      then st\<lparr>loginBtnHidden := True, logoutBtnHidden := False\<rparr>
      else st\<lparr>loginBtnHidden := False, logoutBtnHidden := True\<rparr>)"

definition showAuthModal :: "app \<Rightarrow> app" where
  "showAuthModal st = st\<lparr>modalBody := Some ([], []), authModalHidden := False\<rparr>"

definition hideModal :: "app \<Rightarrow> app" where
  "hideModal st = st\<lparr>authModalHidden := True\<rparr>"

definition showUserContent :: "string \<Rightarrow> app \<Rightarrow> app outcome" where
  "showUserContent type st =
     (if type \<notin> {''chat'', ''argo-map'', ''ocean-map'', ''profile''} then Done st
      else
        (case mainContent st of
           UserDashboard old \<Rightarrow>
             if type = ''chat'' then
               Done (st\<lparr>mainContent := UserDashboard (ChatInterface (nextElement st) []),
                        transcripts := (transcripts st)
                          (nextElement st := innerHTML_append chat_messages_markup (Some [])),
                        nextElement := Suc (nextElement st)\<rparr>)
             else if type = ''argo-map'' then
               Done (st\<lparr>mainContent := UserDashboard (ArgoMap (length (argoFloats st)) None),
                        timers := timers st @ [(clock st + 100, InitializeMap)]\<rparr>)
             else if type = ''ocean-map'' then
               Done (st\<lparr>mainContent := UserDashboard OceanMap\<rparr>)
             else
               (case currentUser st of
                  None \<Rightarrow> Threw TypeError st
                | Some u \<Rightarrow>
                    Done (st\<lparr>mainContent := UserDashboard
                               (UserProfile (get_prop u (lit ''name'')) (get_prop u (lit ''username''))
                                  (get_prop u (lit ''role'')) (length (chatHistory st)))\<rparr>))
         | _ \<Rightarrow> Threw TypeError st))"

definition showAdminContent :: "string \<Rightarrow> app \<Rightarrow> app outcome" where
  "showAdminContent type st =
     (if type \<notin> {''chatbot-db'', ''nc-converter'', ''system'', ''users''} then Done st
      else
        (case mainContent st of
           AdminDashboard old \<Rightarrow>
             if type = ''chatbot-db'' then
               Done (st\<lparr>mainContent := AdminDashboard (ChatbotDB [] NoUpdate)\<rparr>)
             else if type = ''nc-converter'' then
               Done (st\<lparr>mainContent :=
                          AdminDashboard (NCConverter (nextElement st) [] NoConversion None),
                        nextElement := Suc (nextElement st)\<rparr>)
             else if type = ''system'' then
               Done (st\<lparr>mainContent := AdminDashboard
                          (SystemStatus (length (argoFloats st)) (length (chatHistory st)))\<rparr>)
             else Done (st\<lparr>mainContent := AdminDashboard UserManagement\<rparr>)
         | _ \<Rightarrow> Threw TypeError st))"

definition showPage :: "string \<Rightarrow> app \<Rightarrow> app outcome" where
  "showPage page st =
     (let st1 = st\<lparr>currentPage := page\<rparr>
      in if page = ''home'' then Done (st1\<lparr>mainContent := HomePage\<rparr>)
         else if page = ''about'' then Done (st1\<lparr>mainContent := AboutPage\<rparr>)
         else if page = ''contact'' then Done (st1\<lparr>mainContent := ContactPage\<rparr>)
         else if page = ''login'' then Done (showAuthModal st1)
         else if page = ''user'' then
           showUserContent ''chat'' (st1\<lparr>mainContent := UserDashboard UserEmpty\<rparr>)
         else if page = ''admin'' then
           showAdminContent ''chatbot-db'' (st1\<lparr>mainContent := AdminDashboard AdminEmpty\<rparr>)
         else Done st1)"

subsection \<open>Session: restore, login, logout\<close>

fun split_on :: "char \<Rightarrow> string \<Rightarrow> string list" where
  \<comment> \<open>\<open>s.split(sep)\<close> for a separator of one character.\<close>
  "split_on sep [] = [Nil]"
| "split_on sep (c # cs) =
     (if c = sep then [] # split_on sep cs
      else (case split_on sep cs of p # ps \<Rightarrow> (c # p) # ps | [] \<Rightarrow> [c] # []))"

definition token_segment :: "string \<Rightarrow> string" where
  \<comment> \<open>The argument that \<open>atob\<close> receives from \<open>token.split('.')[1]\<close>: the second
      segment, or the text of \<open>undefined\<close> when there is none.\<close>
  "token_segment token =
     (case split_on (CHR ''.'') token of a # b # rest \<Rightarrow> b | _ \<Rightarrow> ''undefined'')"

definition decode_payload :: "string \<Rightarrow> json option" where
  \<comment> \<open>\<open>JSON.parse(atob(token.split('.')[1]))\<close>; \<open>None\<close> when either call throws.\<close>
  "decode_payload token =
     (case atob (token_segment token) of None \<Rightarrow> None | Some text \<Rightarrow> JSON_parse text)"

definition checkAuthStatus :: "app \<Rightarrow> app" where
  "checkAuthStatus st =
     (case authToken st of
        None \<Rightarrow> st
      | Some token \<Rightarrow>
          if token = [] then st
          else
            (case decode_payload token of
               None \<Rightarrow> st\<lparr>authToken := None\<rparr>
             | Some payload \<Rightarrow>
                 if payload = JNull then st\<lparr>authToken := None\<rparr>
                 else
                   (case get_prop payload (lit ''exp'') of
                      None \<Rightarrow> st
                    | Some e \<Rightarrow>
                        if toPrimitive_throws e then st\<lparr>authToken := None\<rparr>
                        else if greater_than (toNumber e) (of_int (clock st) / 1000)
                        then updateNavigation (st\<lparr>currentUser := Some payload\<rparr>)
                        else st)))"

record demo_user =
  password :: string
  role :: string
  name :: string

definition demoUsers :: "string \<Rightarrow> demo_user option" where
  \<comment> \<open>The own properties of the table. A name that the table only inherits (such as
      \<open>constructor\<close>) has no \<open>password\<close>, so it fails the comparison with the typed
      password just as a missing name fails the first test.\<close>
  "demoUsers =
     map_of
       [(''user'', \<lparr>password = ''user123'', role = ''user'', name = ''Marine Researcher''\<rparr>),
        (''admin'', \<lparr>password = ''admin123'', role = ''admin'', name = ''System Administrator''\<rparr>)]"

definition alert :: "string \<Rightarrow> app \<Rightarrow> app" where
  "alert msg st = st\<lparr>alerts := alerts st @ [msg]\<rparr>"

definition handleLogin :: "app \<Rightarrow> app outcome" where
  "handleLogin st =
     (case modalBody st of
        None \<Rightarrow> Threw TypeError st
      | Some (username, pw) \<Rightarrow>
          (case demoUsers username of
             None \<Rightarrow> Done (alert ''Invalid credentials'' st)
           | Some d \<Rightarrow>
               if password d = pw then
                 (let st1 = st\<lparr>currentUser :=
                              Some (JObj [(lit ''username'', JStr (lit username)),
                                          (lit ''role'', JStr (lit (role d))),
                                          (lit ''name'', JStr (lit (name d)))])\<rparr>;
                      token = btoa (stringify_payload username (role d) (name d)
                                      (clock st div 1000 + 3600));
                      st2 = st1\<lparr>authToken := Some token\<rparr>
                  in showPage (role d) (updateNavigation (hideModal st2)))
               else Done (alert ''Invalid credentials'' st)))"

definition logout :: "app \<Rightarrow> app outcome" where
  "logout st = showPage ''home'' (updateNavigation (st\<lparr>currentUser := None, authToken := None\<rparr>))"

subsection \<open>Chat\<close>

definition sendChatMessage :: "app \<Rightarrow> app outcome" where
  "sendChatMessage st =
     (case mainContent st of
        UserDashboard (ChatInterface el v) \<Rightarrow>
          (let message = trim v
           in if message = [] then Done st
              else
                (let response = generateChatResponse (argoFloats st) message
                 in Done (st\<lparr>transcripts :=
                               (transcripts st)
                                 (el := innerHTML_append (user_markup message) (transcripts st el)),
                             timers := timers st @ [(clock st + 1000, AppendBotMessage el response)],
                             chatHistory := chatHistory st @
                               [\<lparr>user = message, bot = response, timestamp = clock st\<rparr>],
                             mainContent := UserDashboard (ChatInterface el [])\<rparr>)))
      | _ \<Rightarrow> Threw TypeError st)"

subsection \<open>Admin actions and the map\<close>

definition updateChatbotDB :: "app \<Rightarrow> app outcome" where
  "updateChatbotDB st =
     (case mainContent st of
        AdminDashboard (ChatbotDB trainingData old) \<Rightarrow>
          (case JSON_parse (lit trainingData) of
             Some v \<Rightarrow>
               Done (st\<lparr>mainContent := AdminDashboard (ChatbotDB trainingData UpdateSucceeded)\<rparr>)
           | None \<Rightarrow>
               Done (st\<lparr>mainContent := AdminDashboard (ChatbotDB trainingData UpdateFailed)\<rparr>))
      | _ \<Rightarrow> Threw TypeError st)"

definition convertNCFiles :: "app \<Rightarrow> app outcome" where
  "convertNCFiles st =
     (case mainContent st of
        AdminDashboard (NCConverter el files old results) \<Rightarrow>
          if length files = 0 then
            Done (st\<lparr>mainContent := AdminDashboard (NCConverter el files PleaseSelectFiles results)\<rparr>)
          else
            Done (st\<lparr>mainContent := AdminDashboard (NCConverter el files Converting results),
                     timers := timers st @ [(clock st + 2000, FinishConversion el files)]\<rparr>)
      | _ \<Rightarrow> Threw TypeError st)"

fun replace_first :: "string \<Rightarrow> string \<Rightarrow> string \<Rightarrow> string" where
  \<comment> \<open>\<open>s.replace(pat, by)\<close> for a text pattern: the first occurrence only.\<close>
  "replace_first pat by [] = (if pat = [] then by else [])"
| "replace_first pat by (c # cs) =
     (if startsWith (c # cs) pat then by @ drop (length pat) (c # cs)
      else c # replace_first pat by cs)"

definition initializeMap :: "app \<Rightarrow> app outcome" where
  \<comment> \<open>\<open>L.map('argoMap')\<close> throws when the container is missing or holds a map already.\<close>
  "initializeMap st =
     (case mainContent st of
        UserDashboard (ArgoMap n None) \<Rightarrow>
          Done (st\<lparr>mainContent := UserDashboard (ArgoMap n (Some (argoFloats st)))\<rparr>)
      | _ \<Rightarrow> Threw LeafletError st)"

subsection \<open>Deferred callbacks\<close>

definition run_callback :: "callback \<Rightarrow> app \<Rightarrow> app outcome" where
  "run_callback cb st =
     (case cb of
        InitializeMap \<Rightarrow> initializeMap st
      | AppendBotMessage el response \<Rightarrow>
          Done (st\<lparr>transcripts :=
                     (transcripts st)
                       (el := innerHTML_append (bot_markup response) (transcripts st el))\<rparr>)
      | FinishConversion el files \<Rightarrow>
          (case mainContent st of
             AdminDashboard (NCConverter el' shown old results) \<Rightarrow>
               if el' = el then
                 Done (st\<lparr>mainContent := AdminDashboard
                            (NCConverter el' shown ConversionCompleted
                               (Some (map (\<lambda>f. (f, replace_first ''.nc'' ''.csv'' f)) files)))\<rparr>)
               else Done st
           | _ \<Rightarrow> Done st))"

definition elapse :: "nat \<Rightarrow> app \<Rightarrow> app" where
  \<comment> \<open>\<open>dt\<close> milliseconds pass: the callbacks due by then run once each, in the order
      of their due times (in registration order where these are equal); an exception in a
      callback ends that callback only.\<close>
  "elapse dt st =
     (let t = clock st + int dt;
          due = filter (\<lambda>(d, cb). d \<le> t) (timers st);
          later = filter (\<lambda>(d, cb). \<not> d \<le> t) (timers st)
      in foldl (\<lambda>s (d, cb). state_of (run_callback cb s))
           (st\<lparr>timers := later, clock := t\<rparr>) (sort_key fst due))"

subsection \<open>Construction and the operations a session can perform\<close>

definition init :: "app \<Rightarrow> app outcome" where
  "init st = and_then (showPage ''home'' st) (\<lambda>s. Done (checkAuthStatus s))"

definition new_FloatChatApp :: "bool \<Rightarrow> bool \<Rightarrow> bool \<Rightarrow> string option \<Rightarrow> int \<Rightarrow> app outcome" where
  \<comment> \<open>The constructor, run at time \<open>t\<close> in a freshly loaded page whose buttons and modal
      have the given \<open>hidden\<close> flags and whose local storage holds \<open>stored\<close>.\<close>
  "new_FloatChatApp loginHidden logoutHidden modalHidden stored t =
     init \<lparr>currentUser = None, currentPage = ''home'', chatHistory = [],
           argoFloats = initial_floats, authToken = stored, mainContent = AsLoaded,
           loginBtnHidden = loginHidden, logoutBtnHidden = logoutHidden,
           authModalHidden = modalHidden, modalBody = None,
           transcripts = (\<lambda>el. Some []), nextElement = 0, timers = [], alerts = [],
           clock = t\<rparr>"

datatype action =
    ShowPage string
  | HideModal
  | Logout
  | HandleLogin
  | ShowUserContent string
  | ShowAdminContent string
  | SendChatMessage
  | UpdateChatbotDB
  | ConvertNCFiles
  | CheckAuthStatus
  | UpdateNavigation
  | ShowAuthModal
  | CallInitializeMap
  | TypeUsername string
  | TypePassword string
  | TypeChatInput string
  | TypeTrainingData string
  | SelectFiles "string list"
  | WriteStorage "string option"
  | Elapse nat

definition type_username :: "string \<Rightarrow> app \<Rightarrow> app" where
  \<comment> \<open>The user edits an input that is displayed; nothing happens when it is not.\<close>
  "type_username u st =
     (case modalBody st of Some (old, pw) \<Rightarrow> st\<lparr>modalBody := Some (u, pw)\<rparr> | None \<Rightarrow> st)"

definition type_password :: "string \<Rightarrow> app \<Rightarrow> app" where
  "type_password pw st =
     (case modalBody st of Some (u, old) \<Rightarrow> st\<lparr>modalBody := Some (u, pw)\<rparr> | None \<Rightarrow> st)"

definition type_chat_input :: "string \<Rightarrow> app \<Rightarrow> app" where
  "type_chat_input v st =
     (case mainContent st of
        UserDashboard (ChatInterface el old) \<Rightarrow>
          st\<lparr>mainContent := UserDashboard (ChatInterface el v)\<rparr>
      | _ \<Rightarrow> st)"

definition type_training_data :: "string \<Rightarrow> app \<Rightarrow> app" where
  "type_training_data v st =
     (case mainContent st of
        AdminDashboard (ChatbotDB old stat) \<Rightarrow>
          st\<lparr>mainContent := AdminDashboard (ChatbotDB v stat)\<rparr>
      | _ \<Rightarrow> st)"

definition select_files :: "string list \<Rightarrow> app \<Rightarrow> app" where
  "select_files fs st =
     (case mainContent st of
        AdminDashboard (NCConverter el old stat results) \<Rightarrow>
          st\<lparr>mainContent := AdminDashboard (NCConverter el fs stat results)\<rparr>
      | _ \<Rightarrow> st)"

fun perform :: "action \<Rightarrow> app \<Rightarrow> app" where
  \<comment> \<open>One event of a session: a call of a method of the application (an exception
      ends the call and leaves the state it reached), an edit of an input, a write to the
      storage item from outside the application, or the passing of time.\<close>
  "perform (ShowPage page) st = state_of (showPage page st)"
| "perform HideModal st = hideModal st"
| "perform Logout st = state_of (logout st)"
| "perform HandleLogin st = state_of (handleLogin st)"
| "perform (ShowUserContent type) st = state_of (showUserContent type st)"
| "perform (ShowAdminContent type) st = state_of (showAdminContent type st)"
| "perform SendChatMessage st = state_of (sendChatMessage st)"
| "perform UpdateChatbotDB st = state_of (updateChatbotDB st)"
| "perform ConvertNCFiles st = state_of (convertNCFiles st)"
| "perform CheckAuthStatus st = checkAuthStatus st"
| "perform UpdateNavigation st = updateNavigation st"
| "perform ShowAuthModal st = showAuthModal st"
| "perform CallInitializeMap st = state_of (initializeMap st)"
| "perform (TypeUsername u) st = type_username u st"
| "perform (TypePassword pw) st = type_password pw st"
| "perform (TypeChatInput v) st = type_chat_input v st"
| "perform (TypeTrainingData v) st = type_training_data v st"
| "perform (SelectFiles fs) st = select_files fs st"
| "perform (WriteStorage v) st = st\<lparr>authToken := v\<rparr>"
| "perform (Elapse dt) st = elapse dt st"

inductive reachable :: "app \<Rightarrow> bool" where
  start: "reachable (state_of (new_FloatChatApp loginHidden logoutHidden modalHidden stored t))"
| step: "reachable st \<Longrightarrow> reachable (perform a st)"

subsection \<open>Predicates and scenarios used in the statements\<close>

definition same_data :: "app \<Rightarrow> app \<Rightarrow> bool" where
  \<comment> \<open>The float list and the chat history are the same in both states.\<close>
  "same_data s t \<longleftrightarrow> argoFloats t = argoFloats s \<and> chatHistory t = chatHistory s"

definition history_complete :: "argo_float list \<Rightarrow> chat_turn list \<Rightarrow> bool" where
  \<comment> \<open>Every turn holds the reply that the resolver gives to its user text.\<close>
  "history_complete fl h \<longleftrightarrow> (\<forall>t \<in> set h. bot t = generateChatResponse fl (user t))"

definition fresh_app :: app where
  \<comment> \<open>A page loaded with an empty storage; the login button shows, the logout button and
      the modal are hidden.\<close>
  "fresh_app = state_of (new_FloatChatApp False True True None 1700000000000)"

definition login_form_filled :: "string \<Rightarrow> string \<Rightarrow> app" where
  "login_form_filled u pw =
     perform (TypePassword pw) (perform (TypeUsername u) (perform (ShowPage ''login'') fresh_app))"

definition logged_in_user :: app where
  "logged_in_user = perform HandleLogin (login_form_filled ''user'' ''user123'')"

definition reloaded_after_login :: app where
  \<comment> \<open>The page is loaded again one minute after the login, with the storage the login left.\<close>
  "reloaded_after_login =
     state_of (new_FloatChatApp False True True (authToken logged_in_user) 1700000060000)"

definition three_part_token :: string where
  \<comment> \<open>A token of three segments whose second segment is the base64 text of a payload
      that expires at second 1700003600.\<close>
  "three_part_token =
     ''h.'' @ btoa (stringify_payload ''user'' ''user'' ''Marine Researcher'' 1700003600) @ ''.s''"

definition loaded_with_token :: "int \<Rightarrow> app" where
  \<comment> \<open>A page loaded at time \<open>t\<close> with \<open>three_part_token\<close> in the storage.\<close>
  "loaded_with_token t = state_of (new_FloatChatApp False True True (Some three_part_token) t)"

definition plain :: "string \<Rightarrow> bool" where
  \<comment> \<open>A text without markup: the tokenizer passes every character on as itself.\<close>
  "plain s \<longleftrightarrow> (\<forall>c \<in> set s. is_text_char c)"

definition markup_message :: string where
  \<comment> \<open>A chat message that closes the paragraph and the element of the user template
      and opens an element of its own.\<close>
  "markup_message = ''a</p></div><div class=message><p>b''"

definition chat_typed :: "string \<Rightarrow> app" where
  \<comment> \<open>The user is logged in, the chat interface shows, and \<open>v\<close> is typed into its input.\<close>
  "chat_typed v = perform (TypeChatInput v) logged_in_user"

definition training_typed :: "string \<Rightarrow> app" where
  \<comment> \<open>The administrator is logged in and \<open>v\<close> is typed into the training data box.\<close>
  "training_typed v =
     perform (TypeTrainingData v)
       (perform HandleLogin (login_form_filled ''admin'' ''admin123''))"

section \<open>Supporting lemmas\<close>

subsection \<open>Substrings and trimming\<close>

lemma startsWith_iff: "startsWith s k \<longleftrightarrow> (\<exists>b. s = k @ b)"
  by (induction s k rule: startsWith.induct) auto

lemma includes_str_iff: "includes_str s k \<longleftrightarrow> (\<exists>a b. s = a @ k @ b)"
proof (induction s)
  case Nil
  then show ?case by simp
next
  case (Cons c cs)
  show ?case
  proof
    assume "includes_str (c # cs) k"
    then consider "startsWith (c # cs) k" | "includes_str cs k" by auto
    then show "\<exists>a b. c # cs = a @ k @ b"
    proof cases
      case 1
      then obtain b where "c # cs = k @ b" using startsWith_iff by blast
      then have "c # cs = [] @ k @ b" by simp
      then show ?thesis by blast
    next
      case 2
      then obtain a b where "cs = a @ k @ b" using Cons.IH by blast
      then have "c # cs = (c # a) @ k @ b" by simp
      then show ?thesis by blast
    qed
  next
    assume "\<exists>a b. c # cs = a @ k @ b"
    then obtain a b where ab: "c # cs = a @ k @ b" by blast
    show "includes_str (c # cs) k"
    proof (cases a)
      case Nil
      with ab have "startsWith (c # cs) k" using startsWith_iff by auto
      then show ?thesis by simp
    next
      case (Cons x xs)
      with ab have "cs = xs @ k @ b" by simp
      then have "includes_str cs k" using Cons.IH by blast
      then show ?thesis by simp
    qed
  qed
qed

lemma temperature_text_initial:
  "temperature_text initial_floats =
     ''I found temperature data from 5 active floats. Average surface temperature is 28.1'' @ deg @
     ''C with variations from 25'' @ deg @ ''C to 29'' @ deg @
     ''C. The thermocline typically occurs around 80-120m depth.''"
  by code_simp

lemma location_text_initial:
  "location_text initial_floats =
     ''Currently tracking 5 ARGO floats across the Indian Ocean. Most recent data shows floats distributed between 6'' @
     deg @ ''S-16'' @ deg @ ''S latitude and 65'' @ deg @ ''E-73'' @ deg @ ''E longitude.''"
  by code_simp

lemma float_text_initial:
  "float_text initial_floats =
     ''ARGO float network includes 4 active floats. Each float profiles to 2000m depth every 10 days, collecting T/S data.''"
  by code_simp

lemma dropWhile_all_iff: "(\<forall>x \<in> set (dropWhile P xs). P x) \<longleftrightarrow> (\<forall>x \<in> set xs. P x)"
proof
  assume all: "\<forall>x \<in> set (dropWhile P xs). P x"
  have "dropWhile P xs = []"
  proof (rule ccontr)
    assume ne: "dropWhile P xs \<noteq> []"
    then have "\<not> P (hd (dropWhile P xs))" by (rule hd_dropWhile)
    moreover have "hd (dropWhile P xs) \<in> set (dropWhile P xs)" using ne by simp
    ultimately show False using all by blast
  qed
  then show "\<forall>x \<in> set xs. P x" by (simp add: dropWhile_eq_Nil_conv)
next
  assume "\<forall>x \<in> set xs. P x"
  then show "\<forall>x \<in> set (dropWhile P xs). P x" by (meson set_dropWhileD)
qed

lemma trim_empty_iff: "trim v = [] \<longleftrightarrow> (\<forall>c \<in> set v. is_trim_char c)"
  by (simp add: trim_def dropWhile_eq_Nil_conv dropWhile_all_iff)

subsection \<open>Parsing the templates\<close>

lemma chat_messages_parsed:
  "innerHTML_append chat_messages_markup (Some []) = Some [greeting_entry]"
  by code_simp

lemma plain_append: "plain (a @ b) \<longleftrightarrow> plain a \<and> plain b"
  by (auto simp: plain_def)

lemma plain_nl: "plain (nl n)"
  by (simp add: plain_def nl_def is_text_char_def)

lemma nl_nonempty: "nl n \<noteq> []"
  by (simp add: nl_def)

lemma tokenize_plain_append:
  "plain s \<Longrightarrow> tokenize (s @ r) = map_option ((@) (map Char s)) (tokenize r)"
proof (induction s)
  case Nil
  show ?case by (simp add: option.map_ident)
next
  case (Cons c cs)
  then have "is_text_char c" "plain cs" by (simp_all add: plain_def)
  then show ?case using Cons.IH by (simp add: option.map_comp comp_def)
qed

lemma tokenize_plain: "plain s \<Longrightarrow> tokenize s = Some (map Char s)"
  using tokenize_plain_append [of s "[]"] by simp

lemma tokenize_tags:
  \<open>tokenize (''<div class="message user">'' @ r) =
     map_option ((#) (Start TagDiv (Some ''message user''))) (tokenize r)\<close>
  \<open>tokenize (''<div class="message bot">'' @ r) =
     map_option ((#) (Start TagDiv (Some ''message bot''))) (tokenize r)\<close>
  \<open>tokenize (''<p>'' @ r) = map_option ((#) (Start TagP None)) (tokenize r)\<close>
  \<open>tokenize (''</p>'' @ r) = map_option ((#) (End TagP)) (tokenize r)\<close>
  \<open>tokenize (''</div>'' @ r) = map_option ((#) (End TagDiv)) (tokenize r)\<close>
  by (simp_all add: is_text_char_def tag_literals_def)

lemma add_char_after_text: "add_char c (ks @ [Text t]) = ks @ [Text (t @ [c])]"
  by (induction c ks rule: add_char.induct) simp_all

lemma add_char_after_elem: "add_char c (ks @ [Elem g a k]) = ks @ [Elem g a k, Text [c]]"
  by (induction c ks rule: add_char.induct) simp_all

lemma build_chars_open:
  "build (map Char s @ ts) ((g, a, ks) # fs) outer =
     build ts ((g, a, foldl (\<lambda>k c. add_char c k) ks s) # fs) outer"
  by (induction s arbitrary: ks) simp_all

lemma build_chars_outer:
  "build (map Char s @ ts) [] outer = build ts [] (foldl (\<lambda>k c. add_char c k) outer s)"
  by (induction s arbitrary: outer) simp_all

lemma build_chars_end:
  "build (map Char s) [] outer = foldl (\<lambda>k c. add_char c k) outer s"
  using build_chars_outer [of s "[]" outer] by simp

lemma add_text_after_text:
  "foldl (\<lambda>k c. add_char c k) (ks @ [Text t]) s = ks @ [Text (t @ s)]"
  by (induction s arbitrary: t) (simp_all add: add_char_after_text)

lemma add_text_empty: "s \<noteq> [] \<Longrightarrow> foldl (\<lambda>k c. add_char c k) [] s = [Text s]"
proof (cases s)
  case Nil
  assume "s \<noteq> []"
  with Nil show ?thesis by simp
next
  case (Cons c cs)
  have "foldl (\<lambda>k c. add_char c k) ([] @ [Text [c]]) cs = [] @ [Text ([c] @ cs)]"
    by (rule add_text_after_text)
  then show ?thesis using Cons by simp
qed

lemma add_text_after_elem:
  "s \<noteq> [] \<Longrightarrow>
     foldl (\<lambda>k c. add_char c k) (ks @ [Elem g a k]) s = ks @ [Elem g a k, Text s]"
proof (cases s)
  case Nil
  assume "s \<noteq> []"
  with Nil show ?thesis by simp
next
  case (Cons c cs)
  have "foldl (\<lambda>k c. add_char c k) ((ks @ [Elem g a k]) @ [Text [c]]) cs =
          (ks @ [Elem g a k]) @ [Text ([c] @ cs)]"
    by (rule add_text_after_text)
  then show ?thesis using Cons by (simp add: add_char_after_elem)
qed

lemma build_template:
  assumes "m \<noteq> []"
  shows "build (map Char (nl i) @ Start TagDiv cls # map Char (nl j) @ Start TagP None # map Char m @
                End TagP # map Char (nl k) @ End TagDiv # map Char (nl l)) [] [] =
           [Text (nl i), Elem TagDiv cls [Text (nl j), Elem TagP None [Text m], Text (nl k)], Text (nl l)]"
proof -
  have 1: "foldl (\<lambda>k c. add_char c k) [] (nl i) = [Text (nl i)]"
    by (rule add_text_empty [OF nl_nonempty])
  have 2: "foldl (\<lambda>k c. add_char c k) [] (nl j) = [Text (nl j)]"
    by (rule add_text_empty [OF nl_nonempty])
  have 3: "foldl (\<lambda>k c. add_char c k) [] m = [Text m]"
    by (rule add_text_empty [OF assms])
  have 4: "foldl (\<lambda>k c. add_char c k) [Text (nl j), Elem TagP None [Text m]] (nl k) =
             [Text (nl j), Elem TagP None [Text m], Text (nl k)]"
    using add_text_after_elem [OF nl_nonempty, of "[Text (nl j)]" TagP None "[Text m]" k] by simp
  have 5: "foldl (\<lambda>k c. add_char c k)
             [Text (nl i), Elem TagDiv cls [Text (nl j), Elem TagP None [Text m], Text (nl k)]] (nl l) =
             [Text (nl i), Elem TagDiv cls [Text (nl j), Elem TagP None [Text m], Text (nl k)], Text (nl l)]"
    using add_text_after_elem [OF nl_nonempty, of "[Text (nl i)]" TagDiv cls
        "[Text (nl j), Elem TagP None [Text m], Text (nl k)]" l] by simp
  show ?thesis
    by (simp add: build_chars_open build_chars_outer build_chars_end on_stack_def 1 2 3 4 5)
qed

lemma parse_user_markup:
  assumes "plain m" and "m \<noteq> []"
  shows "parse_fragment (user_markup m) = Some [Text (nl 12), user_entry m, Text (nl 8)]"
proof -
  have "tokenize (user_markup m) =
          Some (map Char (nl 12) @ Start TagDiv (Some ''message user'') # map Char (nl 16) @
                Start TagP None # map Char m @ End TagP # map Char (nl 12) @ End TagDiv #
                map Char (nl 8))"
    unfolding user_markup_def
    by (simp only: append_assoc tokenize_plain_append [OF plain_nl]
        tokenize_plain_append [OF assms(1)] tokenize_plain [OF plain_nl] tokenize_tags
        option.map append_Nil2)
  then show ?thesis
    by (simp add: parse_fragment_def build_template [OF assms(2)] user_entry_def)
qed

lemma parse_bot_markup:
  assumes "plain m" and "m \<noteq> []"
  shows "parse_fragment (bot_markup m) = Some [Text (nl 16), bot_entry m, Text (nl 12)]"
proof -
  have "tokenize (bot_markup m) =
          Some (map Char (nl 16) @ Start TagDiv (Some ''message bot'') # map Char (nl 20) @
                Start TagP None # map Char m @ End TagP # map Char (nl 16) @ End TagDiv #
                map Char (nl 12))"
    unfolding bot_markup_def
    by (simp only: append_assoc tokenize_plain_append [OF plain_nl]
        tokenize_plain_append [OF assms(1)] tokenize_plain [OF plain_nl] tokenize_tags
        option.map append_Nil2)
  then show ?thesis
    by (simp add: parse_fragment_def build_template [OF assms(2)] bot_entry_def)
qed

lemma append_user_markup:
  assumes "plain m" and "m \<noteq> []"
  shows "innerHTML_append (user_markup m) (Some kids) = Some (kids @ [user_entry m])"
  by (simp add: innerHTML_append_def parse_user_markup [OF assms] elements_def user_entry_def)

lemma append_bot_markup:
  assumes "plain m" and "m \<noteq> []"
  shows "innerHTML_append (bot_markup m) (Some kids) = Some (kids @ [bot_entry m])"
  by (simp add: innerHTML_append_def parse_bot_markup [OF assms] elements_def bot_entry_def)

text \<open>The replies of the resolver contain no markup, whatever the float list is.\<close>

lemma digit_is_text_char:
  assumes "k < 10"
  shows "is_text_char (char_of (48 + k :: nat))"
proof -
  have v: "of_char (char_of (48 + k)) = (48 + k :: nat)"
    using assms by (simp add: of_char_of)
  have "char_of (48 + k) \<noteq> c" if "(of_char c :: nat) \<notin> {48..57}" for c
  proof
    assume "char_of (48 + k) = c"
    then have "(of_char c :: nat) = 48 + k" using v by simp
    then show False using that assms by simp
  qed
  then show ?thesis by (simp add: is_text_char_def)
qed

lemma plain_show_nat: "plain (show_nat n)"
proof (induction n rule: show_nat.induct)
  case (1 n)
  show ?case
  proof (cases "n < 10")
    case True
    then have "show_nat n = [char_of (48 + n)]" by (subst show_nat.simps) simp
    then show ?thesis using digit_is_text_char [OF True] by (simp only: plain_def) simp
  next
    case False
    then have eq: "show_nat n = show_nat (n div 10) @ [char_of (48 + n mod 10)]"
      by (subst show_nat.simps) simp
    have "is_text_char (char_of (48 + n mod 10))" by (rule digit_is_text_char) simp
    moreover have "plain (show_nat (n div 10))" by (rule "1.IH" [OF False])
    ultimately show ?thesis unfolding eq plain_append by (simp only: plain_def) simp
  qed
qed

lemma show_nat_chars:
  "\<forall>c \<in> set (show_nat n). c \<noteq> CHR ''<'' \<and> c \<noteq> CHR ''&'' \<and> c \<noteq> CHR 0x00 \<and> c \<noteq> CHR 0x0D"
  using plain_show_nat [of n] by (simp only: plain_def is_text_char_def)

lemma plain_texts:
  "plain (temperature_text fl)" "plain salinity_text" "plain (location_text fl)"
  "plain (float_text fl)" "plain profile_text" "plain fallback_text"
  by (simp_all add: temperature_text_def salinity_text_def location_text_def float_text_def
      profile_text_def fallback_text_def deg_def plain_def is_text_char_def ball_Un
      show_nat_chars)

lemma texts_nonempty:
  "temperature_text fl \<noteq> []" "salinity_text \<noteq> []" "location_text fl \<noteq> []"
  "float_text fl \<noteq> []" "profile_text \<noteq> []" "fallback_text \<noteq> []"
  by (simp_all add: temperature_text_def salinity_text_def location_text_def float_text_def
        profile_text_def fallback_text_def)

lemma generateChatResponse_cases:
  "generateChatResponse fl q \<in>
     {temperature_text fl, salinity_text, location_text fl, float_text fl,
      profile_text, fallback_text}"
  by (simp add: generateChatResponse_def responses_def)

lemma plain_reply: "plain (generateChatResponse fl q) \<and> generateChatResponse fl q \<noteq> []"
proof -
  let ?r = "generateChatResponse fl q"
  from generateChatResponse_cases [of fl q] consider
      "?r = temperature_text fl" | "?r = salinity_text" | "?r = location_text fl"
    | "?r = float_text fl" | "?r = profile_text" | "?r = fallback_text"
    by blast
  then show ?thesis
    by cases (simp_all only: plain_texts texts_nonempty not_False_eq_True simp_thms)
qed

subsection \<open>Sending a message and running one callback\<close>

lemma sendChatMessage_accepted:
  assumes "mainContent st = UserDashboard (ChatInterface el v)" and "trim v \<noteq> []"
  shows "sendChatMessage st =
           Done (st\<lparr>transcripts :=
                      (transcripts st)
                        (el := innerHTML_append (user_markup (trim v)) (transcripts st el)),
                    timers := timers st @
                      [(clock st + 1000,
                        AppendBotMessage el (generateChatResponse (argoFloats st) (trim v)))],
                    chatHistory := chatHistory st @
                      [\<lparr>user = trim v, bot = generateChatResponse (argoFloats st) (trim v),
                        timestamp = clock st\<rparr>],
                    mainContent := UserDashboard (ChatInterface el [])\<rparr>)"
  using assms by (simp add: sendChatMessage_def Let_def)

lemma elapse_single:
  assumes "timers s = [(d, cb)]"
  shows "elapse dt s =
           (if d \<le> clock s + int dt
            then state_of (run_callback cb (s\<lparr>timers := [], clock := clock s + int dt\<rparr>))
            else s\<lparr>clock := clock s + int dt\<rparr>)"
  using assms by (simp add: elapse_def Let_def)

text \<open>
  A message without markup, sent to a transcript whose content is known: the transcript
  grows by exactly the user entry, one callback is registered for 1000 ms later, and that
  callback adds exactly the bot entry with the reply, in whatever state it runs, as long as
  the content of the element is known there.
\<close>

lemma sendChatMessage_plain_transcript:
  assumes chat: "mainContent st = UserDashboard (ChatInterface el v)"
    and accepted: "trim v \<noteq> []"
    and markup_free: "plain (trim v)"
    and known: "transcripts st el = Some kids"
  defines "st' \<equiv> state_of (sendChatMessage st)"
    and "reply \<equiv> generateChatResponse (argoFloats st) (trim v)"
  shows "sendChatMessage st = Done st'"
    and "transcripts st' el = Some (kids @ [user_entry (trim v)])"
    and "\<forall>e. e \<noteq> el \<longrightarrow> transcripts st' e = transcripts st e"
    and "timers st' = timers st @ [(clock st + 1000, AppendBotMessage el reply)]"
    and "\<forall>s ks. transcripts s el = Some ks \<longrightarrow>
           (\<exists>s'. run_callback (AppendBotMessage el reply) s = Done s'
              \<and> transcripts s' el = Some (ks @ [bot_entry reply])
              \<and> (\<forall>e. e \<noteq> el \<longrightarrow> transcripts s' e = transcripts s e))"
    and "timers st = [] \<longrightarrow>
           (\<forall>dt. transcripts (elapse dt st') el =
                   (if dt < 1000 then Some (kids @ [user_entry (trim v)])
                    else Some (kids @ [user_entry (trim v), bot_entry reply]))
                \<and> (\<forall>e. e \<noteq> el \<longrightarrow> transcripts (elapse dt st') e = transcripts st e))"
proof -
  note sent = sendChatMessage_accepted [OF chat accepted]
  note user = append_user_markup [OF markup_free accepted]
  have bot: "innerHTML_append (bot_markup reply) (Some ks) = Some (ks @ [bot_entry reply])" for ks
    using plain_reply [of "argoFloats st" "trim v"]
    by (simp add: reply_def append_bot_markup)
  show 1: "sendChatMessage st = Done st'" by (simp add: st'_def sent)
  show 2: "transcripts st' el = Some (kids @ [user_entry (trim v)])"
    by (simp add: st'_def sent known user)
  show 3: "\<forall>e. e \<noteq> el \<longrightarrow> transcripts st' e = transcripts st e"
    by (simp add: st'_def sent)
  show 4: "timers st' = timers st @ [(clock st + 1000, AppendBotMessage el reply)]"
    by (simp add: st'_def sent reply_def)
  show "\<forall>s ks. transcripts s el = Some ks \<longrightarrow>
           (\<exists>s'. run_callback (AppendBotMessage el reply) s = Done s'
              \<and> transcripts s' el = Some (ks @ [bot_entry reply])
              \<and> (\<forall>e. e \<noteq> el \<longrightarrow> transcripts s' e = transcripts s e))"
    by (simp add: run_callback_def bot)
  show "timers st = [] \<longrightarrow>
           (\<forall>dt. transcripts (elapse dt st') el =
                   (if dt < 1000 then Some (kids @ [user_entry (trim v)])
                    else Some (kids @ [user_entry (trim v), bot_entry reply]))
                \<and> (\<forall>e. e \<noteq> el \<longrightarrow> transcripts (elapse dt st') e = transcripts st e))"
  proof (intro impI allI)
    fix dt :: nat
    assume empty: "timers st = []"
    have single: "timers st' = [(clock st + 1000, AppendBotMessage el reply)]"
      using 4 empty by simp
    have clk: "clock st' = clock st" by (simp add: st'_def sent)
    show "transcripts (elapse dt st') el =
                   (if dt < 1000 then Some (kids @ [user_entry (trim v)])
                    else Some (kids @ [user_entry (trim v), bot_entry reply]))
                \<and> (\<forall>e. e \<noteq> el \<longrightarrow> transcripts (elapse dt st') e = transcripts st e)"
      using 2 3 by (auto simp: elapse_single [OF single] clk run_callback_def bot)
  qed
qed

subsection \<open>Login\<close>

lemma demoUsers_cases:
  "demoUsers u =
     (if u = ''user'' then Some \<lparr>password = ''user123'', role = ''user'', name = ''Marine Researcher''\<rparr>
      else if u = ''admin'' then
        Some \<lparr>password = ''admin123'', role = ''admin'', name = ''System Administrator''\<rparr>
      else None)"
  by (simp add: demoUsers_def)

lemma handleLogin_user:
  assumes "modalBody st = Some (''user'', ''user123'')"
  shows "handleLogin st =
           Done (st\<lparr>currentUser := Some (JObj [(lit ''username'', JStr (lit ''user'')),
                                                (lit ''role'', JStr (lit ''user'')),
                                                (lit ''name'', JStr (lit ''Marine Researcher''))]),
                    authToken := Some (btoa (stringify_payload ''user'' ''user'' ''Marine Researcher''
                                               (clock st div 1000 + 3600))),
                    authModalHidden := True,
                    loginBtnHidden := True, logoutBtnHidden := False,
                    currentPage := ''user'',
                    mainContent := UserDashboard (ChatInterface (nextElement st) []),
                    transcripts := (transcripts st)(nextElement st := Some [greeting_entry]),
                    nextElement := Suc (nextElement st)\<rparr>)"
  using assms
  by (simp add: handleLogin_def demoUsers_cases Let_def hideModal_def updateNavigation_def
      truthy_def showPage_def showUserContent_def chat_messages_parsed)

lemma handleLogin_admin:
  assumes "modalBody st = Some (''admin'', ''admin123'')"
  shows "handleLogin st =
           Done (st\<lparr>currentUser := Some (JObj [(lit ''username'', JStr (lit ''admin'')),
                                                (lit ''role'', JStr (lit ''admin'')),
                                                (lit ''name'', JStr (lit ''System Administrator''))]),
                    authToken := Some (btoa (stringify_payload ''admin'' ''admin'' ''System Administrator''
                                               (clock st div 1000 + 3600))),
                    authModalHidden := True,
                    loginBtnHidden := True, logoutBtnHidden := False,
                    currentPage := ''admin'',
                    mainContent := AdminDashboard (ChatbotDB [] NoUpdate)\<rparr>)"
  using assms
  by (simp add: handleLogin_def demoUsers_cases Let_def hideModal_def updateNavigation_def
      truthy_def showPage_def showAdminContent_def)

lemma handleLogin_mismatch:
  assumes "modalBody st = Some (u, p)"
    and "(u, p) \<notin> {(''user'', ''user123''), (''admin'', ''admin123'')}"
  shows "handleLogin st = Done (st\<lparr>alerts := alerts st @ [''Invalid credentials'']\<rparr>)"
  using assms by (auto simp: handleLogin_def demoUsers_cases alert_def)

subsection \<open>What every operation leaves alone\<close>

lemma same_data_refl: "same_data s s"
  by (simp add: same_data_def)

lemma same_data_trans: "same_data s t \<Longrightarrow> same_data t r \<Longrightarrow> same_data s r"
  by (simp add: same_data_def)

lemma updateNavigation_data: "same_data st (updateNavigation st)"
  by (simp add: same_data_def updateNavigation_def)

lemma showAuthModal_data: "same_data st (showAuthModal st)"
  by (simp add: same_data_def showAuthModal_def)

lemma hideModal_data: "same_data st (hideModal st)"
  by (simp add: same_data_def hideModal_def)

lemma showUserContent_data: "same_data st (state_of (showUserContent type st))"
  by (simp add: same_data_def showUserContent_def
      split: main_content.splits option.splits)

lemma showAdminContent_data: "same_data st (state_of (showAdminContent type st))"
  by (simp add: same_data_def showAdminContent_def split: main_content.splits)

lemma showPage_data: "same_data st (state_of (showPage page st))"
proof -
  consider (user) "page = ''user''" | (admin) "page = ''admin''"
    | (other) "page \<noteq> ''user''" "page \<noteq> ''admin''" by blast
  then show ?thesis
  proof cases
    case user
    let ?s = "st\<lparr>currentPage := page, mainContent := UserDashboard UserEmpty\<rparr>"
    have eq: "showPage page st = showUserContent ''chat'' ?s"
      using user by (simp add: showPage_def Let_def)
    have a: "same_data st ?s" by (simp add: same_data_def)
    have b: "same_data ?s (state_of (showUserContent ''chat'' ?s))"
      by (rule showUserContent_data)
    show ?thesis
      unfolding eq by (rule same_data_trans [OF a b])
  next
    case admin
    let ?s = "st\<lparr>currentPage := page, mainContent := AdminDashboard AdminEmpty\<rparr>"
    have eq: "showPage page st = showAdminContent ''chatbot-db'' ?s"
      using admin by (simp add: showPage_def Let_def)
    have a: "same_data st ?s" by (simp add: same_data_def)
    have b: "same_data ?s (state_of (showAdminContent ''chatbot-db'' ?s))"
      by (rule showAdminContent_data)
    show ?thesis
      unfolding eq by (rule same_data_trans [OF a b])
  next
    case other
    then show ?thesis by (simp add: showPage_def Let_def same_data_def showAuthModal_def)
  qed
qed

lemma checkAuthStatus_data: "same_data st (checkAuthStatus st)"
  by (simp add: same_data_def checkAuthStatus_def updateNavigation_def
      split: option.splits)

lemma handleLogin_data: "same_data st (state_of (handleLogin st))"
proof (cases "modalBody st")
  case None
  then show ?thesis by (simp add: handleLogin_def same_data_def)
next
  case (Some up)
  obtain u p where up: "up = (u, p)" by (cases up)
  show ?thesis
  proof (cases "demoUsers u")
    case None
    then show ?thesis using Some up by (simp add: handleLogin_def same_data_def alert_def)
  next
    case d: (Some d)
    show ?thesis
    proof (cases "password d = p")
      case False
      then show ?thesis using Some up d by (simp add: handleLogin_def same_data_def alert_def)
    next
      case True
      let ?s = "updateNavigation (hideModal (st\<lparr>currentUser :=
                              Some (JObj [(lit ''username'', JStr (lit u)),
                                          (lit ''role'', JStr (lit (role d))),
                                          (lit ''name'', JStr (lit (name d)))]),
                   authToken := Some (btoa (stringify_payload u (role d) (name d)
                                      (clock st div 1000 + 3600)))\<rparr>))"
      have eq: "handleLogin st = showPage (role d) ?s"
        using Some up d True by (simp add: handleLogin_def Let_def)
      have a: "same_data st ?s"
        by (simp add: same_data_def updateNavigation_def hideModal_def)
      have b: "same_data ?s (state_of (showPage (role d) ?s))"
        by (rule showPage_data)
      show ?thesis
        unfolding eq by (rule same_data_trans [OF a b])
    qed
  qed
qed

lemma logout_data: "same_data st (state_of (logout st))"
proof -
  let ?s = "updateNavigation (st\<lparr>currentUser := None, authToken := None\<rparr>)"
  have a: "same_data st ?s"
    by (simp add: same_data_def updateNavigation_def)
  have b: "same_data ?s (state_of (showPage ''home'' ?s))"
    by (rule showPage_data)
  show ?thesis
    unfolding logout_def by (rule same_data_trans [OF a b])
qed

lemma updateChatbotDB_data: "same_data st (state_of (updateChatbotDB st))"
  by (simp add: same_data_def updateChatbotDB_def
      split: main_content.splits admin_content.splits option.splits)

lemma convertNCFiles_data: "same_data st (state_of (convertNCFiles st))"
  by (simp add: same_data_def convertNCFiles_def
      split: main_content.splits admin_content.splits)

lemma initializeMap_data: "same_data st (state_of (initializeMap st))"
  by (simp add: same_data_def initializeMap_def
      split: main_content.splits user_content.splits option.splits)

lemma run_callback_data: "same_data st (state_of (run_callback cb st))"
proof (cases cb)
  case InitializeMap
  then show ?thesis using initializeMap_data by (simp add: run_callback_def)
next
  case (AppendBotMessage el response)
  then show ?thesis by (simp add: run_callback_def same_data_def)
next
  case (FinishConversion el files)
  then show ?thesis
    by (simp add: run_callback_def same_data_def
        split: main_content.splits admin_content.splits)
qed

lemma run_callbacks_data:
  "same_data st (foldl (\<lambda>s (d, cb). state_of (run_callback cb s)) st cbs)"
proof (induction cbs arbitrary: st)
  case Nil
  then show ?case by (simp add: same_data_refl)
next
  case (Cons x xs)
  obtain d cb where x: "x = (d, cb)" by (cases x)
  have "same_data st (state_of (run_callback cb st))" by (rule run_callback_data)
  moreover have "same_data (state_of (run_callback cb st))
                   (foldl (\<lambda>s (d, cb). state_of (run_callback cb s))
                      (state_of (run_callback cb st)) xs)"
    by (rule Cons.IH)
  ultimately have "same_data st
                   (foldl (\<lambda>s (d, cb). state_of (run_callback cb s))
                      (state_of (run_callback cb st)) xs)"
    by (rule same_data_trans)
  then show ?case using x by simp
qed

lemma elapse_data: "same_data st (elapse dt st)"
proof -
  let ?t = "clock st + int dt"
  let ?s = "st\<lparr>timers := filter (\<lambda>(d, cb). \<not> d \<le> ?t) (timers st), clock := ?t\<rparr>"
  have a: "same_data st ?s" by (simp add: same_data_def)
  have b: "same_data ?s (foldl (\<lambda>s (d, cb). state_of (run_callback cb s)) ?s
                    (sort_key fst (filter (\<lambda>(d, cb). d \<le> ?t) (timers st))))"
    by (rule run_callbacks_data)
  show ?thesis
    unfolding elapse_def Let_def by (rule same_data_trans [OF a b])
qed

lemma type_username_data: "same_data st (type_username u st)"
  by (simp add: same_data_def type_username_def split: option.splits)

lemma type_password_data: "same_data st (type_password pw st)"
  by (simp add: same_data_def type_password_def split: option.splits)

lemma type_chat_input_data: "same_data st (type_chat_input v st)"
  by (simp add: same_data_def type_chat_input_def
      split: main_content.splits user_content.splits)

lemma type_training_data_data: "same_data st (type_training_data v st)"
  by (simp add: same_data_def type_training_data_def
      split: main_content.splits admin_content.splits)

lemma select_files_data: "same_data st (select_files fs st)"
  by (simp add: same_data_def select_files_def
      split: main_content.splits admin_content.splits)

lemma sendChatMessage_floats: "argoFloats (state_of (sendChatMessage st)) = argoFloats st"
  by (simp add: sendChatMessage_def Let_def
      split: main_content.splits user_content.splits)

lemma sendChatMessage_history:
  "chatHistory (state_of (sendChatMessage st)) = chatHistory st
   \<or> (\<exists>m t. chatHistory (state_of (sendChatMessage st)) =
         chatHistory st @ [\<lparr>user = m, bot = generateChatResponse (argoFloats st) m, timestamp = t\<rparr>])"
  by (simp add: sendChatMessage_def Let_def
      split: main_content.splits user_content.splits)

lemma perform_not_send_data: "a \<noteq> SendChatMessage \<Longrightarrow> same_data st (perform a st)"
proof (cases a)
  case (WriteStorage v)
  then show ?thesis by (simp add: same_data_def)
qed (simp_all add: showPage_data hideModal_data logout_data handleLogin_data
    showUserContent_data showAdminContent_data updateChatbotDB_data convertNCFiles_data
    checkAuthStatus_data updateNavigation_data showAuthModal_data initializeMap_data
    elapse_data type_username_data type_password_data type_chat_input_data
    type_training_data_data select_files_data)

lemma perform_floats: "argoFloats (perform a st) = argoFloats st"
proof (cases "a = SendChatMessage")
  case True
  then show ?thesis by (simp add: sendChatMessage_floats)
next
  case False
  then show ?thesis using perform_not_send_data [of a st] by (simp add: same_data_def)
qed

lemma perform_history:
  assumes "history_complete (argoFloats st) (chatHistory st)"
  shows "history_complete (argoFloats (perform a st)) (chatHistory (perform a st))"
proof (cases "a = SendChatMessage")
  case True
  then show ?thesis
    using assms sendChatMessage_history [of st]
    by (auto simp: sendChatMessage_floats history_complete_def)
next
  case False
  then show ?thesis using perform_not_send_data [of a st] assms by (simp add: same_data_def)
qed

lemma start_data:
  "argoFloats (state_of (new_FloatChatApp a b c stored t)) = initial_floats
   \<and> chatHistory (state_of (new_FloatChatApp a b c stored t)) = []"
proof -
  let ?s0 = "\<lparr>currentUser = None, currentPage = ''home'', chatHistory = [],
           argoFloats = initial_floats, authToken = stored, mainContent = AsLoaded,
           loginBtnHidden = a, logoutBtnHidden = b,
           authModalHidden = c, modalBody = None,
           transcripts = (\<lambda>el. Some []), nextElement = 0, timers = [], alerts = [],
           clock = t\<rparr>"
  have "showPage ''home'' ?s0 = Done (?s0\<lparr>currentPage := ''home'', mainContent := HomePage\<rparr>)"
    by (simp add: showPage_def Let_def)
  then have "state_of (new_FloatChatApp a b c stored t)
               = checkAuthStatus (?s0\<lparr>currentPage := ''home'', mainContent := HomePage\<rparr>)"
    by (simp add: new_FloatChatApp_def init_def and_then_def)
  then show ?thesis
    using checkAuthStatus_data [of "?s0\<lparr>currentPage := ''home'', mainContent := HomePage\<rparr>"]
    by (simp add: same_data_def)
qed

lemma reachable_data:
  "reachable st \<Longrightarrow>
     argoFloats st = initial_floats \<and> history_complete initial_floats (chatHistory st)"
proof (induction rule: reachable.induct)
  case (start loginHidden logoutHidden modalHidden stored t)
  then show ?case using start_data by (simp add: history_complete_def)
next
  case (step st a)
  then show ?case using perform_floats [of a st] perform_history [of st a] by simp
qed

subsection \<open>The JSON parser consumes its input, and its fuel suffices\<close>

lemma skip_ws_length: "length (skip_ws s) \<le> length s"
  by (simp add: skip_ws_def length_dropWhile_le)

lemma skip_ws_Cons_length: "skip_ws s = c # r \<Longrightarrow> length r < length s"
  using skip_ws_length [of s] by simp

lemma json_chars_shorter: "json_chars s = Some (us, r) \<Longrightarrow> length r < length s"
proof (induction s arbitrary: us r rule: json_chars.induct)
  case 1
  then show ?case by simp
next
  case (2 c s)
  then show ?case
    by (fastforce simp: cons_unit_def split: if_splits list.splits option.splits)
qed

lemma dropWhile_le: "length (dropWhile P xs) \<le> length xs"
  by (rule length_dropWhile_le)

lemma dropWhile_tl_le: "length (dropWhile P (tl xs)) \<le> length xs"
proof (cases xs)
  case Nil
  then show ?thesis by simp
next
  case (Cons x ys)
  have "length (dropWhile P ys) \<le> length ys" by (rule length_dropWhile_le)
  then show ?thesis using Cons by simp
qed

lemma scan_exponent_shorter: "scan_exponent s = Some (e, r) \<Longrightarrow> length r \<le> length s"
  by (auto simp: scan_exponent_def Let_def dropWhile_le dropWhile_tl_le split: if_splits)

lemma scan_exponent_tl_shorter:
  "scan_exponent (tl s) = Some (e, r) \<Longrightarrow> length r \<le> length s"
  using scan_exponent_shorter [of "tl s" e r] by (cases s) auto

lemma takeWhile_dropWhile_length:
  "takeWhile P xs \<noteq> [] \<Longrightarrow> length (dropWhile P xs) < length xs"
proof (cases xs)
  case Nil
  assume "takeWhile P xs \<noteq> []"
  with Nil show ?thesis by simp
next
  case (Cons x ys)
  assume ne: "takeWhile P xs \<noteq> []"
  with Cons have "P x" by (auto split: if_splits)
  moreover have "length (dropWhile P ys) \<le> length ys" by (rule length_dropWhile_le)
  ultimately show ?thesis using Cons by simp
qed

lemma number_tail_shorter:
  assumes "(case (if s3 \<noteq> [] \<and> (hd s3 = 101 \<or> hd s3 = 69)
                  then scan_exponent (tl s3) else Some (0, s3)) of
              None \<Rightarrow> None
            | Some (e, s4) \<Rightarrow> Some (f e, s4)) = Some (x, r)"
  shows "length r \<le> length s3"
  using assms scan_exponent_tl_shorter [of s3]
  by (auto split: if_splits option.splits)

lemma json_number_shorter:
  assumes "json_number s = Some (x, r)"
  shows "length r < length s"
proof -
  let ?s1 = "if s \<noteq> [] \<and> hd s = 45 then tl s else s"
  let ?s2 = "dropWhile is_digit ?s1"
  have ip: "takeWhile is_digit ?s1 \<noteq> []"
    using assms by (auto simp: json_number_def Let_def split: if_splits)
  then have s2: "length ?s2 < length ?s1" by (rule takeWhile_dropWhile_length)
  have s1: "length ?s1 \<le> length s" by simp
  obtain fp s3 where frac: "(if ?s2 \<noteq> [] \<and> hd ?s2 = 46
                  then (let (fp, s3) = scan_fraction (tl ?s2)
                        in if fp = [] then None else Some (fp, s3))
                  else Some ([], ?s2)) = Some (fp, s3)"
    using assms ip by (auto simp: json_number_def Let_def split: if_splits option.splits)
  have s3: "length s3 \<le> length ?s2"
    using frac dropWhile_tl_le [of is_digit ?s2]
    by (auto simp: scan_fraction_def Let_def split: if_splits)
  have "length r \<le> length s3"
    using assms ip frac
    by (auto simp: json_number_def Let_def split: if_splits intro: number_tail_shorter)
  then show ?thesis using s1 s2 s3 by linarith
qed

lemma startsWith_length: "startsWith s k \<Longrightarrow> length k \<le> length s"
  by (induction s k rule: startsWith.induct) auto

lemma json_value_Suc:
  "json_value (Suc n) s = Some (v, r) \<Longrightarrow>
     (\<exists>c t. skip_ws s = c # t \<and>
        ((c = 123 \<and> (\<exists>d t1. skip_ws t = d # t1 \<and>
             (if d = 125 then v = JObj [] \<and> r = t1 else json_members n (d # t1) [] = Some (v, r))))
       \<or> (c = 91 \<and> (\<exists>d t1. skip_ws t = d # t1 \<and>
             (if d = 93 then v = JArr [] \<and> r = t1 else json_elements n (d # t1) [] = Some (v, r))))
       \<or> (c = 34 \<and> (\<exists>us. json_chars t = Some (us, r)))
       \<or> (startsWith (c # t) (lit ''true'') \<and> r = drop 4 (c # t))
       \<or> (startsWith (c # t) (lit ''false'') \<and> r = drop 5 (c # t))
       \<or> (startsWith (c # t) (lit ''null'') \<and> r = drop 4 (c # t))
       \<or> (\<exists>x. json_number (c # t) = Some (x, r))))"
  by (auto split: list.splits if_splits)

lemma json_shorter:
  "json_value n s = Some (v, r) \<Longrightarrow> length r < length s"
  "json_elements n s acc = Some (v, r) \<Longrightarrow> length r < length s"
  "json_members n s macc = Some (v, r) \<Longrightarrow> length r < length s"
proof (induction n s and n s acc and n s macc arbitrary: v r and v r and v r
    rule: json_value_json_elements_json_members.induct)
  case (1 s)
  then show ?case by simp
next
  case (2 n s)
  from json_value_Suc [OF "2.prems"] obtain c t where sk: "skip_ws s = c # t"
    and alt: "(c = 123 \<and> (\<exists>d t1. skip_ws t = d # t1 \<and>
             (if d = 125 then v = JObj [] \<and> r = t1 else json_members n (d # t1) [] = Some (v, r))))
       \<or> (c = 91 \<and> (\<exists>d t1. skip_ws t = d # t1 \<and>
             (if d = 93 then v = JArr [] \<and> r = t1 else json_elements n (d # t1) [] = Some (v, r))))
       \<or> (c = 34 \<and> (\<exists>us. json_chars t = Some (us, r)))
       \<or> (startsWith (c # t) (lit ''true'') \<and> r = drop 4 (c # t))
       \<or> (startsWith (c # t) (lit ''false'') \<and> r = drop 5 (c # t))
       \<or> (startsWith (c # t) (lit ''null'') \<and> r = drop 4 (c # t))
       \<or> (\<exists>x. json_number (c # t) = Some (x, r))"
    by blast
  have ct: "length (c # t) \<le> length s" using skip_ws_length [of s] sk by simp
  from alt consider
      (obj) d t1 where "c = 123" "skip_ws t = d # t1"
        "if d = 125 then v = JObj [] \<and> r = t1 else json_members n (d # t1) [] = Some (v, r)"
    | (arr) d t1 where "c = 91" "skip_ws t = d # t1"
        "if d = 93 then v = JArr [] \<and> r = t1 else json_elements n (d # t1) [] = Some (v, r)"
    | (str) us where "c = 34" "json_chars t = Some (us, r)"
    | (tr) "startsWith (c # t) (lit ''true'')" "r = drop 4 (c # t)"
    | (fa) "startsWith (c # t) (lit ''false'')" "r = drop 5 (c # t)"
    | (nu) "startsWith (c # t) (lit ''null'')" "r = drop 4 (c # t)"
    | (num) x where "json_number (c # t) = Some (x, r)"
    by blast
  then show ?case
  proof cases
    case obj
    have dt: "length (d # t1) \<le> length t" using skip_ws_length [of t] obj(2) by simp
    show ?thesis
    proof (cases "d = 125")
      case True
      then show ?thesis using obj dt ct by simp
    next
      case False
      then have "json_members n (d # t1) [] = Some (v, r)" using obj(3) by simp
      then have "length r < length (d # t1)"
        using "2.IH"(1) [OF sk obj(1) obj(2) False] by blast
      then show ?thesis using dt ct by simp
    qed
  next
    case arr
    have dt: "length (d # t1) \<le> length t" using skip_ws_length [of t] arr(2) by simp
    show ?thesis
    proof (cases "d = 93")
      case True
      then show ?thesis using arr dt ct by simp
    next
      case False
      then have "json_elements n (d # t1) [] = Some (v, r)" using arr(3) by simp
      moreover have "c \<noteq> 123" using arr(1) by simp
      ultimately have "length r < length (d # t1)"
        using "2.IH"(2) [OF sk _ arr(1) arr(2) False] by blast
      then show ?thesis using dt ct by simp
    qed
  next
    case str
    then show ?thesis using json_chars_shorter [of t us r] ct by simp
  next
    case tr
    then show ?thesis using ct by simp
  next
    case fa
    then show ?thesis using ct by simp
  next
    case nu
    then show ?thesis using ct by simp
  next
    case num
    then show ?thesis using json_number_shorter [of "c # t" x r] ct by simp
  qed
next
  case (3 s acc)
  then show ?case by simp
next
  case (4 n s acc)
  from "4.prems" obtain w t where val: "json_value n s = Some (w, t)"
    by (auto split: option.splits)
  then have t: "length t < length s" using "4.IH"(1) by blast
  from "4.prems" val obtain c t1 where sk: "skip_ws t = c # t1"
    by (auto split: list.splits)
  have t1: "length t1 < length t" using sk by (rule skip_ws_Cons_length)
  show ?case
  proof (cases "c = 44")
    case True
    then have "json_elements n t1 (acc @ [w]) = Some (v, r)"
      using "4.prems" val sk by simp
    then have "length r < length t1"
      using "4.IH"(2) [OF val _ sk True] by simp
    then show ?thesis using t t1 by simp
  next
    case False
    then have "r = t1" using "4.prems" val sk by (auto split: if_splits)
    then show ?thesis using t t1 by simp
  qed
next
  case (5 s macc)
  then show ?case by simp
next
  case (6 n s macc)
  from "6.prems" obtain q t where sk: "skip_ws s = q # t"
    by (auto split: list.splits)
  from "6.prems" sk have q: "\<not> q \<noteq> 34" by (auto split: if_splits)
  from "6.prems" sk q obtain k t1 where ch: "json_chars t = Some (k, t1)"
    by (auto split: option.splits)
  from "6.prems" sk q ch obtain c t2 where sk1: "skip_ws t1 = c # t2"
    by (auto split: list.splits)
  from "6.prems" sk q ch sk1 have c: "\<not> c \<noteq> 58" by (auto split: if_splits)
  from "6.prems" sk q ch sk1 c obtain w t3 where val: "json_value n t2 = Some (w, t3)"
    by (auto split: option.splits)
  from "6.prems" sk q ch sk1 c val obtain d t4 where sk3: "skip_ws t3 = d # t4"
    by (auto split: list.splits)
  have l0: "length t < length s" using sk by (rule skip_ws_Cons_length)
  have l1: "length t1 < length t" using ch by (rule json_chars_shorter)
  have l2: "length t2 < length t1" using sk1 by (rule skip_ws_Cons_length)
  have l3: "length t3 < length t2"
    using "6.IH"(1) [OF sk q ch _ sk1 c val] by simp
  have l4: "length t4 < length t3" using sk3 by (rule skip_ws_Cons_length)
  show ?case
  proof (cases "d = 44")
    case True
    then have "json_members n t4 (macc @ [(k, w)]) = Some (v, r)"
      using "6.prems" sk q ch sk1 c val sk3 by simp
    then have "length r < length t4"
      using "6.IH"(2) [OF sk q ch _ sk1 c val _ sk3 True] by simp
    then show ?thesis using l0 l1 l2 l3 l4 by simp
  next
    case False
    then have "r = t4" using "6.prems" sk q ch sk1 c val sk3 by (auto split: if_splits)
    then show ?thesis using l0 l1 l2 l3 l4 by simp
  qed
qed

lemma json_fuel:
  "2 * length s + 1 \<le> n \<Longrightarrow> 2 * length s + 1 \<le> m \<Longrightarrow> json_value n s = json_value m s"
  "2 * length s + 2 \<le> n \<Longrightarrow> 2 * length s + 2 \<le> m \<Longrightarrow>
     json_elements n s acc = json_elements m s acc"
  "2 * length s + 2 \<le> n \<Longrightarrow> 2 * length s + 2 \<le> m \<Longrightarrow>
     json_members n s macc = json_members m s macc"
proof (induction n s and n s acc and n s macc arbitrary: m and m and m
    rule: json_value_json_elements_json_members.induct)
  case (1 s)
  then show ?case by simp
next
  case (2 n s)
  from "2.prems"(2) obtain m' where m: "m = Suc m'" by (cases m) auto
  have members: "json_members n (d # t1) [] = json_members m' (d # t1) []"
    if "skip_ws s = c # t" "c = 123" "skip_ws t = d # t1" "d \<noteq> 125" for c t d t1
  proof -
    have "length (d # t1) \<le> length t" using skip_ws_length [of t] that(3) by simp
    moreover have "length t < length s" using that(1) by (rule skip_ws_Cons_length)
    ultimately have "2 * length (d # t1) + 2 \<le> n" "2 * length (d # t1) + 2 \<le> m'"
      using "2.prems" m by simp_all
    then show ?thesis using "2.IH"(1) [OF that] by blast
  qed
  have elements: "json_elements n (d # t1) [] = json_elements m' (d # t1) []"
    if "skip_ws s = c # t" "c \<noteq> 123" "c = 91" "skip_ws t = d # t1" "d \<noteq> 93" for c t d t1
  proof -
    have "length (d # t1) \<le> length t" using skip_ws_length [of t] that(4) by simp
    moreover have "length t < length s" using that(1) by (rule skip_ws_Cons_length)
    ultimately have "2 * length (d # t1) + 2 \<le> n" "2 * length (d # t1) + 2 \<le> m'"
      using "2.prems" m by simp_all
    then show ?thesis using "2.IH"(2) [OF that] by blast
  qed
  show ?case
    unfolding m using members elements
    by (auto split: list.splits)
next
  case (3 s acc)
  then show ?case by simp
next
  case (4 n s acc)
  from "4.prems"(2) obtain m' where m: "m = Suc m'" by (cases m) auto
  have val: "json_value n s = json_value m' s"
    using "4.IH"(1) [of m'] "4.prems" m by simp
  have rest: "json_elements n t1 (acc @ [w]) = json_elements m' t1 (acc @ [w])"
    if "json_value n s = Some (w, t)" "skip_ws t = c # t1" "c = 44" for w t c t1
  proof -
    have "length t < length s" using that(1) by (rule json_shorter(1))
    moreover have "length t1 < length t" using that(2) by (rule skip_ws_Cons_length)
    ultimately have "2 * length t1 + 2 \<le> n" "2 * length t1 + 2 \<le> m'"
      using "4.prems" m by simp_all
    then show ?thesis using "4.IH"(2) [OF that(1) _ that(2) that(3)] by blast
  qed
  show ?case
    unfolding m using rest
    by (auto simp: val [symmetric] split: option.splits list.splits)
next
  case (5 s macc)
  then show ?case by simp
next
  case (6 n s macc)
  from "6.prems"(2) obtain m' where m: "m = Suc m'" by (cases m) auto
  have val: "json_value n t2 = json_value m' t2"
    if "skip_ws s = q # t" "\<not> q \<noteq> 34" "json_chars t = Some (k, t1)" "skip_ws t1 = c # t2"
      "\<not> c \<noteq> 58" for q t k t1 c t2
  proof -
    have "length t < length s" using that(1) by (rule skip_ws_Cons_length)
    moreover have "length t1 < length t" using that(3) by (rule json_chars_shorter)
    moreover have "length t2 < length t1" using that(4) by (rule skip_ws_Cons_length)
    ultimately have "2 * length t2 + 1 \<le> n" "2 * length t2 + 1 \<le> m'"
      using "6.prems" m by simp_all
    then show ?thesis using "6.IH"(1) [OF that(1,2,3) _ that(4,5)] by blast
  qed
  have rest: "json_members n t4 (macc @ [(k, w)]) = json_members m' t4 (macc @ [(k, w)])"
    if "skip_ws s = q # t" "\<not> q \<noteq> 34" "json_chars t = Some (k, t1)" "skip_ws t1 = c # t2"
      "\<not> c \<noteq> 58" "json_value n t2 = Some (w, t3)" "skip_ws t3 = d # t4" "d = 44"
    for q t k t1 c t2 w t3 d t4
  proof -
    have "length t < length s" using that(1) by (rule skip_ws_Cons_length)
    moreover have "length t1 < length t" using that(3) by (rule json_chars_shorter)
    moreover have "length t2 < length t1" using that(4) by (rule skip_ws_Cons_length)
    moreover have "length t3 < length t2" using that(6) by (rule json_shorter(1))
    moreover have "length t4 < length t3" using that(7) by (rule skip_ws_Cons_length)
    ultimately have "2 * length t4 + 2 \<le> n" "2 * length t4 + 2 \<le> m'"
      using "6.prems" m by simp_all
    then show ?thesis using "6.IH"(2) [OF that(1,2,3) _ that(4,5,6) _ that(7,8)] by blast
  qed
  show ?case
  proof (cases "skip_ws s")
    case Nil
    then show ?thesis unfolding m by simp
  next
    case (Cons q t)
    show ?thesis
    proof (cases "q \<noteq> 34")
      case True
      then show ?thesis unfolding m using Cons by simp
    next
      case q: False
      show ?thesis
      proof (cases "json_chars t")
        case None
        then show ?thesis unfolding m using Cons q by simp
      next
        case (Some kt)
        obtain k t1 where kt: "kt = (k, t1)" by (cases kt)
        show ?thesis
        proof (cases "skip_ws t1")
          case Nil
          then show ?thesis unfolding m using Cons q Some kt by simp
        next
          case c: (Cons c t2)
          show ?thesis
          proof (cases "c \<noteq> 58")
            case True
            then show ?thesis unfolding m using Cons q Some kt c by simp
          next
            case colon: False
            have v: "json_value n t2 = json_value m' t2"
              using val [OF Cons q _ c colon] Some kt by simp
            show ?thesis
            proof (cases "json_value n t2")
              case None
              then show ?thesis unfolding m using Cons q Some kt c colon v by simp
            next
              case sv: (Some wt)
              obtain w t3 where wt: "wt = (w, t3)" by (cases wt)
              have r: "d = 44 \<Longrightarrow> skip_ws t3 = d # t4 \<Longrightarrow>
                  json_members n t4 (macc @ [(k, w)]) = json_members m' t4 (macc @ [(k, w)])"
                for d t4
                using rest [OF Cons q _ c colon _ _] Some kt sv wt by simp
              have svn: "json_value n t2 = Some (w, t3)" using sv wt by simp
              have svm: "json_value m' t2 = Some (w, t3)" using v sv wt by simp
              show ?thesis
              proof (cases "skip_ws t3")
                case Nil
                then show ?thesis unfolding m using Cons q Some kt c colon svn svm by simp
              next
                case d: (Cons d t4)
                show ?thesis
                  unfolding m using Cons q Some kt c colon svn svm d r [OF _ d]
                  by simp
              qed
            qed
          qed
        qed
      qed
    qed
  qed
qed

text \<open>
  The fuel that \<open>JSON_parse\<close> gives the parser is enough: no larger amount changes the
  result, so a \<open>None\<close> of \<open>JSON_parse\<close> is a syntax error and never an exhausted fuel.
\<close>

lemma JSON_parse_fuel:
  assumes "2 * length s + 2 \<le> n"
  shows "(case json_value n s of
            None \<Rightarrow> None
          | Some (v, r) \<Rightarrow> if skip_ws r = [] then Some v else None) = JSON_parse s"
proof -
  have "json_value n s = json_value (2 * length s + 2) s"
    using assms by (intro json_fuel(1)) simp_all
  then show ?thesis by (simp add: JSON_parse_def)
qed

subsection \<open>Base64 text has no dot\<close>

lemma b64_char_in_alphabet: "b64_char n \<in> set b64_alphabet"
proof -
  have "length b64_alphabet = 64" by (simp add: b64_alphabet_def)
  then have "n mod 64 < length b64_alphabet" by simp
  then show ?thesis unfolding b64_char_def by (rule nth_mem)
qed

lemma dot_not_in_alphabet: "CHR ''.'' \<notin> set b64_alphabet"
  by (simp add: b64_alphabet_def)

lemma b64_char_not_dot: "b64_char n \<noteq> CHR ''.''"
  using b64_char_in_alphabet [of n] dot_not_in_alphabet by metis

lemma b64_encode_no_dot: "CHR ''.'' \<notin> set (b64_encode xs)"
  by (induction xs rule: b64_encode.induct) (simp_all add: b64_char_not_dot [THEN not_sym])

lemma b64_encode_empty_iff: "b64_encode xs = [] \<longleftrightarrow> xs = []"
  by (induction xs rule: b64_encode.induct) simp_all

lemma split_on_absent: "sep \<notin> set s \<Longrightarrow> split_on sep s = [s]"
  by (induction s) auto

lemma atob_undefined: "atob ''undefined'' = None"
  by code_simp

lemma single_segment_token_removed:
  assumes "authToken s = Some token" and "token \<noteq> []" and "CHR ''.'' \<notin> set token"
  shows "checkAuthStatus s = s\<lparr>authToken := None\<rparr>"
proof -
  have "token_segment token = ''undefined''"
    using assms(3) by (simp add: token_segment_def split_on_absent)
  then have "decode_payload token = None"
    by (simp add: decode_payload_def atob_undefined)
  then show ?thesis using assms(1,2) by (simp add: checkAuthStatus_def)
qed

text \<open>
  Whichever of the two accounts logs in and whenever the stored token is read back, also
  before it expires: \<open>checkAuthStatus\<close> finds no second segment in the token that
  \<open>handleLogin\<close> stored, removes the token and adopts nothing.
\<close>

lemma login_token_never_restored:
  assumes form: "modalBody st = Some (u, pw)"
    and ok: "(u, pw) \<in> {(''user'', ''user123''), (''admin'', ''admin123'')}"
    and stored: "authToken s = authToken (state_of (handleLogin st))"
  shows "checkAuthStatus s = s\<lparr>authToken := None\<rparr>"
proof -
  obtain r n where tok: "authToken (state_of (handleLogin st)) =
      Some (btoa (stringify_payload u r n (clock st div 1000 + 3600)))"
    using form ok handleLogin_user [of st] handleLogin_admin [of st] by auto
  let ?token = "btoa (stringify_payload u r n (clock st div 1000 + 3600))"
  have "stringify_payload u r n (clock st div 1000 + 3600) \<noteq> []"
    by (simp add: stringify_payload_def)
  then have ne: "?token \<noteq> []" by (simp add: btoa_def b64_encode_empty_iff)
  have nodot: "CHR ''.'' \<notin> set ?token" by (simp add: btoa_def b64_encode_no_dot)
  show ?thesis
    using single_segment_token_removed [OF _ ne nodot] stored tok by simp
qed

subsection \<open>The scenarios, field by field\<close>

lemma fresh_app_eq:
  "fresh_app =
     \<lparr>currentUser = None, currentPage = ''home'', chatHistory = [],
      argoFloats = initial_floats, authToken = None, mainContent = HomePage,
      loginBtnHidden = False, logoutBtnHidden = True,
      authModalHidden = True, modalBody = None,
      transcripts = (\<lambda>el. Some []), nextElement = 0, timers = [], alerts = [],
      clock = 1700000000000\<rparr>"
  by (simp add: fresh_app_def new_FloatChatApp_def init_def showPage_def and_then_def
      checkAuthStatus_def Let_def)

lemma login_form_filled_eq:
  "login_form_filled u pw =
     fresh_app\<lparr>currentPage := ''login'', modalBody := Some (u, pw), authModalHidden := False\<rparr>"
  by (simp add: login_form_filled_def fresh_app_eq showPage_def showAuthModal_def Let_def
      type_username_def type_password_def)

lemma logged_in_user_eq:
  "logged_in_user =
     fresh_app\<lparr>currentUser := Some (JObj [(lit ''username'', JStr (lit ''user'')),
                                              (lit ''role'', JStr (lit ''user'')),
                                              (lit ''name'', JStr (lit ''Marine Researcher''))]),
                authToken := Some (btoa (stringify_payload ''user'' ''user'' ''Marine Researcher''
                                           1700003600)),
                modalBody := Some (''user'', ''user123''),
                authModalHidden := True, loginBtnHidden := True, logoutBtnHidden := False,
                currentPage := ''user'',
                mainContent := UserDashboard (ChatInterface 0 []),
                transcripts := (\<lambda>el. Some [])(0 := Some [greeting_entry]),
                nextElement := Suc 0\<rparr>"
proof -
  have "modalBody (login_form_filled ''user'' ''user123'') = Some (''user'', ''user123'')"
    by (simp add: login_form_filled_eq)
  from handleLogin_user [OF this] show ?thesis
    by (simp add: logged_in_user_def login_form_filled_eq fresh_app_eq)
qed

lemma chat_typed_eq:
  "chat_typed v = logged_in_user\<lparr>mainContent := UserDashboard (ChatInterface 0 v)\<rparr>"
  by (simp add: chat_typed_def logged_in_user_eq type_chat_input_def)

lemma training_typed_eq:
  "training_typed v =
     fresh_app\<lparr>currentUser := Some (JObj [(lit ''username'', JStr (lit ''admin'')),
                                              (lit ''role'', JStr (lit ''admin'')),
                                              (lit ''name'', JStr (lit ''System Administrator''))]),
                authToken := Some (btoa (stringify_payload ''admin'' ''admin'' ''System Administrator''
                                           1700003600)),
                modalBody := Some (''admin'', ''admin123''),
                authModalHidden := True, loginBtnHidden := True, logoutBtnHidden := False,
                currentPage := ''admin'',
                mainContent := AdminDashboard (ChatbotDB v NoUpdate)\<rparr>"
proof -
  have "modalBody (login_form_filled ''admin'' ''admin123'') = Some (''admin'', ''admin123'')"
    by (simp add: login_form_filled_eq)
  from handleLogin_admin [OF this] show ?thesis
    by (simp add: training_typed_def login_form_filled_eq fresh_app_eq type_training_data_def)
qed

lemma new_FloatChatApp_eq:
  "state_of (new_FloatChatApp a b c stored t) =
     checkAuthStatus
       \<lparr>currentUser = None, currentPage = ''home'', chatHistory = [],
        argoFloats = initial_floats, authToken = stored, mainContent = HomePage,
        loginBtnHidden = a, logoutBtnHidden = b, authModalHidden = c, modalBody = None,
        transcripts = (\<lambda>el. Some []), nextElement = 0, timers = [], alerts = [],
           clock = t\<rparr>"
  by (simp add: new_FloatChatApp_def init_def showPage_def and_then_def Let_def)

subsection \<open>The token that the login of \<open>user\<close> stores\<close>

lemma login_payload_text:
  \<open>stringify_payload ''user'' ''user'' ''Marine Researcher'' 1700003600 =
     ''{"username":"user","role":"user","name":"Marine Researcher","exp":1700003600}''\<close>
  by code_simp

lemma login_token_text:
  "btoa (stringify_payload ''user'' ''user'' ''Marine Researcher'' 1700003600) =
     ''eyJ1c2VybmFtZSI6InVzZXIiLCJyb2xlIjoidXNlciIsIm5hbWUiOiJNYXJpbmUgUmVzZWFyY2hlciIsImV4cCI6MTcwMDAwMzYwMH0=''"
  by code_simp

subsection \<open>A token of three segments\<close>

lemma decode_three_part_token:
  "decode_payload three_part_token =
     Some (JObj [(lit ''username'', JStr (lit ''user'')), (lit ''role'', JStr (lit ''user'')),
                 (lit ''name'', JStr (lit ''Marine Researcher'')), (lit ''exp'', JNum 1700003600)])"
  by code_simp

lemma three_part_token_exp:
  "get_prop (JObj [(lit ''username'', JStr (lit ''user'')), (lit ''role'', JStr (lit ''user'')),
                   (lit ''name'', JStr (lit ''Marine Researcher'')), (lit ''exp'', JNum 1700003600)])
     (lit ''exp'') = Some (JNum 1700003600)"
  by code_simp

lemma three_part_token_nonempty: "three_part_token \<noteq> []"
  by (simp add: three_part_token_def)

lemma checkAuthStatus_three_part_token:
  assumes "authToken s = Some three_part_token"
  shows "checkAuthStatus s =
           (if clock s < 1700003600000
            then updateNavigation (s\<lparr>currentUser := decode_payload three_part_token\<rparr>)
            else s)"
  using assms
  by (simp add: checkAuthStatus_def three_part_token_nonempty decode_three_part_token
      three_part_token_exp greater_than_def)

text \<open>
  Every token whose payload carries a number as \<open>exp\<close> that is not in the future is left
  where it is: \<open>checkAuthStatus\<close> changes nothing at all.
\<close>

lemma expired_numeric_token_kept:
  assumes "authToken st = Some token"
    and "decode_payload token = Some payload"
    and "get_prop payload (lit ''exp'') = Some (JNum x)"
    and "x \<le> of_int (clock st) / 1000"
  shows "checkAuthStatus st = st"
proof -
  have "payload \<noteq> JNull" using assms(3) by (auto simp: get_prop_def)
  then show ?thesis
    using assms by (simp add: checkAuthStatus_def greater_than_def)
qed

text \<open>
  A token of three segments is restored before its expiry: the path that
  \<open>checkAuthStatus\<close> implements works on tokens of that shape.
\<close>

lemma unexpired_token_restored:
  "currentUser (loaded_with_token 1700003599000) = decode_payload three_part_token
   \<and> authToken (loaded_with_token 1700003599000) = Some three_part_token
   \<and> loginBtnHidden (loaded_with_token 1700003599000)
   \<and> \<not> logoutBtnHidden (loaded_with_token 1700003599000)"
  by (simp add: loaded_with_token_def new_FloatChatApp_eq checkAuthStatus_three_part_token
      updateNavigation_def decode_three_part_token truthy_def)

subsection \<open>Concrete queries and training texts\<close>

lemma trim_question: "trim ''What is the temperature today?'' = ''What is the temperature today?''"
  by code_simp

lemma reply_question:
  "generateChatResponse initial_floats ''What is the temperature today?'' =
     temperature_text initial_floats"
  by code_simp

lemma parse_bare_number: "JSON_parse (lit ''42'') = Some (JNum 42)"
  by code_simp

lemma parse_placeholder:
  \<open>JSON_parse (lit ''[{"question": "What is temperature?", "answer": "Temperature is..."}]'') =
     Some (JArr [JObj [(lit ''question'', JStr (lit ''What is temperature?'')),
                       (lit ''answer'', JStr (lit ''Temperature is...''))]])\<close>
  by code_simp

lemma parse_unclosed: "JSON_parse (lit ''[{'') = None"
  by code_simp

section \<open>The claims\<close>

text \<open>
  C1. Store-then-restore round trip: after a successful login the stored credential encodes
  \<open>{username, role, name, exp}\<close>, but a later \<open>checkAuthStatus\<close> before the expiry does not
  adopt that identity. The code at the input "log in as user/user123, load the page again
  one minute later": \<open>handleLogin\<close> stores one base64 segment without a dot, so
  \<open>token.split('.')[1]\<close> is \<open>undefined\<close>, \<open>atob\<close> throws, and the \<open>catch\<close> removes the
  credential; the reloaded application has no current user and an empty storage.
\<close>

theorem login_token_discarded_on_reload:
  "authToken logged_in_user =
     Some (btoa (stringify_payload ''user'' ''user'' ''Marine Researcher'' 1700003600))
   \<and> currentUser logged_in_user =
     Some (JObj [(lit ''username'', JStr (lit ''user'')), (lit ''role'', JStr (lit ''user'')),
                 (lit ''name'', JStr (lit ''Marine Researcher''))])
   \<and> map_option token_segment (authToken logged_in_user) = Some ''undefined''
   \<and> clock reloaded_after_login < 1700003600000
   \<and> currentUser reloaded_after_login = None
   \<and> authToken reloaded_after_login = None"
proof -
  let ?token = "btoa (stringify_payload ''user'' ''user'' ''Marine Researcher'' 1700003600)"
  let ?loaded = "\<lparr>currentUser = None, currentPage = ''home'', chatHistory = [],
        argoFloats = initial_floats, authToken = Some ?token, mainContent = HomePage,
        loginBtnHidden = False, logoutBtnHidden = True, authModalHidden = True,
        modalBody = None, transcripts = (\<lambda>el. Some []), nextElement = 0, timers = [],
        alerts = [], clock = 1700000060000\<rparr>"
  have tok: "authToken logged_in_user = Some ?token"
    by (simp add: logged_in_user_eq)
  have usr: "currentUser logged_in_user =
     Some (JObj [(lit ''username'', JStr (lit ''user'')), (lit ''role'', JStr (lit ''user'')),
                 (lit ''name'', JStr (lit ''Marine Researcher''))])"
    by (simp add: logged_in_user_eq)
  have nodot: "CHR ''.'' \<notin> set ?token" by (simp add: btoa_def b64_encode_no_dot)
  have "stringify_payload ''user'' ''user'' ''Marine Researcher'' 1700003600 \<noteq> []"
    by (simp add: stringify_payload_def)
  then have ne: "?token \<noteq> []" by (simp add: btoa_def b64_encode_empty_iff)
  have seg: "map_option token_segment (authToken logged_in_user) = Some ''undefined''"
    using nodot by (simp add: tok token_segment_def split_on_absent)
  have "reloaded_after_login = checkAuthStatus ?loaded"
    by (simp add: reloaded_after_login_def new_FloatChatApp_eq tok)
  also have "\<dots> = ?loaded\<lparr>authToken := None\<rparr>"
    by (rule single_segment_token_removed [OF _ ne nodot]) simp
  finally have re: "reloaded_after_login = ?loaded\<lparr>authToken := None\<rparr>" .
  show ?thesis using tok usr seg by (simp add: re)
qed

text \<open>
  C2. A stored credential that decodes to a payload whose expiry lies in the past: no
  session becomes active, but the credential is not cleared. The code at the input "load
  the page one second after the expiry of a three-segment token": the comparison
  \<open>payload.exp > Date.now() / 1000\<close> is false, nothing else runs, and the token is still in
  the storage afterwards (only the \<open>catch\<close> branch, for a token that does not decode,
  removes it).
\<close>

theorem expired_token_left_in_storage:
  "decode_payload three_part_token =
     Some (JObj [(lit ''username'', JStr (lit ''user'')), (lit ''role'', JStr (lit ''user'')),
                 (lit ''name'', JStr (lit ''Marine Researcher'')), (lit ''exp'', JNum 1700003600)])
   \<and> currentUser (loaded_with_token 1700003601000) = None
   \<and> authToken (loaded_with_token 1700003601000) = Some three_part_token"
  by (simp add: decode_three_part_token loaded_with_token_def new_FloatChatApp_eq
      checkAuthStatus_three_part_token)

text \<open>
  C3, as stated: for a page identifier outside \<open>{home, about, contact, login, user, admin}\<close>,
  \<open>showPage\<close> is a no-op that leaves the current-page field unchanged. This fails:
  \<open>showPage\<close> assigns \<open>this.currentPage = page\<close> before the \<open>switch\<close>, so after
  \<open>showPage('settings')\<close> on a freshly loaded application the field is \<open>settings\<close>, not
  \<open>home\<close>.
\<close>

theorem showPage_unknown_changes_page:
  "''settings'' \<notin> {''home'', ''about'', ''contact'', ''login'', ''user'', ''admin''}
   \<and> currentPage fresh_app = ''home''
   \<and> currentPage (state_of (showPage ''settings'' fresh_app)) = ''settings''"
  by (simp add: fresh_app_eq showPage_def Let_def)

text \<open>
  C3, amended: for every page identifier outside \<open>{home, about, contact, login, user, admin}\<close>,
  \<open>showPage\<close> renders nothing and throws nothing; it sets the current-page field to the
  given identifier and leaves everything else (the displayed view, the modal, the session,
  the storage, the history, the timers) unchanged.
\<close>

theorem showPage_unknown_sets_only_currentPage:
  assumes "page \<notin> {''home'', ''about'', ''contact'', ''login'', ''user'', ''admin''}"
  shows "showPage page st = Done (st\<lparr>currentPage := page\<rparr>)"
  using assms by (simp add: showPage_def Let_def)

theorem showPage_unknown_sets_only_currentPage_witness:
  "''settings'' \<notin> {''home'', ''about'', ''contact'', ''login'', ''user'', ''admin''}
   \<and> showPage ''settings'' fresh_app = Done (fresh_app\<lparr>currentPage := ''settings''\<rparr>)"
proof -
  have h: "''settings'' \<notin> {''home'', ''about'', ''contact'', ''login'', ''user'', ''admin''}"
    by simp
  show ?thesis
    using h showPage_unknown_sets_only_currentPage [OF h, of fresh_app] by simp
qed

text \<open>
  C4. With the login form displayed: \<open>user\<close>/\<open>user123\<close> and \<open>admin\<close>/\<open>admin123\<close> log in, the
  session gets the role \<open>user\<close> and \<open>admin\<close> respectively, the token is stored, and the
  page of that role is shown (the user dashboard with the chat interface, the admin
  dashboard with the chatbot database form); for every other pair of username and
  password the only effect is the alert \<open>Invalid credentials\<close>.
\<close>

theorem handleLogin_two_accounts:
  assumes form: "modalBody st = Some (u, pw)"
  shows "(u = ''user'' \<and> pw = ''user123'' \<longrightarrow>
            (\<exists>st' usr. handleLogin st = Done st' \<and> currentUser st' = Some usr
               \<and> get_prop usr (lit ''role'') = Some (JStr (lit ''user''))
               \<and> authToken st' = Some (btoa (stringify_payload ''user'' ''user''
                                                 ''Marine Researcher'' (clock st div 1000 + 3600)))
               \<and> currentPage st' = ''user''
               \<and> mainContent st' = UserDashboard (ChatInterface (nextElement st) [])))
       \<and> (u = ''admin'' \<and> pw = ''admin123'' \<longrightarrow>
            (\<exists>st' usr. handleLogin st = Done st' \<and> currentUser st' = Some usr
               \<and> get_prop usr (lit ''role'') = Some (JStr (lit ''admin''))
               \<and> authToken st' = Some (btoa (stringify_payload ''admin'' ''admin''
                                                 ''System Administrator'' (clock st div 1000 + 3600)))
               \<and> currentPage st' = ''admin''
               \<and> mainContent st' = AdminDashboard (ChatbotDB [] NoUpdate)))
       \<and> ((u, pw) \<notin> {(''user'', ''user123''), (''admin'', ''admin123'')} \<longrightarrow>
            handleLogin st = Done (st\<lparr>alerts := alerts st @ [''Invalid credentials'']\<rparr>))"
proof (intro conjI impI)
  assume "u = ''user'' \<and> pw = ''user123''"
  then have "modalBody st = Some (''user'', ''user123'')" using form by simp
  from handleLogin_user [OF this]
  show "\<exists>st' usr. handleLogin st = Done st' \<and> currentUser st' = Some usr
               \<and> get_prop usr (lit ''role'') = Some (JStr (lit ''user''))
               \<and> authToken st' = Some (btoa (stringify_payload ''user'' ''user''
                                                 ''Marine Researcher'' (clock st div 1000 + 3600)))
               \<and> currentPage st' = ''user''
               \<and> mainContent st' = UserDashboard (ChatInterface (nextElement st) [])"
    by (simp add: get_prop_def lit_def)
next
  assume "u = ''admin'' \<and> pw = ''admin123''"
  then have "modalBody st = Some (''admin'', ''admin123'')" using form by simp
  from handleLogin_admin [OF this]
  show "\<exists>st' usr. handleLogin st = Done st' \<and> currentUser st' = Some usr
               \<and> get_prop usr (lit ''role'') = Some (JStr (lit ''admin''))
               \<and> authToken st' = Some (btoa (stringify_payload ''admin'' ''admin''
                                                 ''System Administrator'' (clock st div 1000 + 3600)))
               \<and> currentPage st' = ''admin''
               \<and> mainContent st' = AdminDashboard (ChatbotDB [] NoUpdate)"
    by (simp add: get_prop_def lit_def)
next
  assume "(u, pw) \<notin> {(''user'', ''user123''), (''admin'', ''admin123'')}"
  with form show "handleLogin st = Done (st\<lparr>alerts := alerts st @ [''Invalid credentials'']\<rparr>)"
    by (rule handleLogin_mismatch)
qed

theorem handleLogin_two_accounts_witness:
  "modalBody (login_form_filled ''user'' ''user12'') = Some (''user'', ''user12'')
   \<and> (''user'', ''user12'') \<notin> {(''user'', ''user123''), (''admin'', ''admin123'')}
   \<and> handleLogin (login_form_filled ''user'' ''user12'') =
       Done ((login_form_filled ''user'' ''user12'')\<lparr>alerts := [''Invalid credentials'']\<rparr>)
   \<and> modalBody (login_form_filled ''admin'' ''admin123'') = Some (''admin'', ''admin123'')
   \<and> currentPage (state_of (handleLogin (login_form_filled ''admin'' ''admin123''))) = ''admin''"
proof -
  have f1: "modalBody (login_form_filled ''user'' ''user12'') = Some (''user'', ''user12'')"
    by (simp add: login_form_filled_eq)
  have f2: "modalBody (login_form_filled ''admin'' ''admin123'') = Some (''admin'', ''admin123'')"
    by (simp add: login_form_filled_eq)
  have no: "alerts (login_form_filled ''user'' ''user12'') = []"
    by (simp add: login_form_filled_eq fresh_app_eq)
  show ?thesis
    using handleLogin_two_accounts [OF f1] handleLogin_two_accounts [OF f2] f1 f2 no
    by auto
qed

text \<open>
  C5. For every float list and every query, \<open>generateChatResponse\<close> returns the paragraph
  of the first of the keywords \<open>temperature\<close>, \<open>salinity\<close>, \<open>location\<close>, \<open>float\<close>, \<open>profile\<close>,
  in this order, that occurs in the lower-cased query as a contiguous substring, and the
  fallback text when none occurs; a query in which both \<open>temperature\<close> and \<open>salinity\<close>
  occur gets the temperature paragraph; the result is always one of six texts, which for
  the float list of the application are six fixed strings (five floats, four of them
  active).
\<close>

theorem generateChatResponse_first_keyword:
  fixes fl :: "argo_float list" and query :: string
  defines "hit \<equiv> (\<lambda>key. \<exists>before after. toLowerCase query = before @ key @ after)"
  shows "generateChatResponse fl query =
           (if hit ''temperature'' then temperature_text fl
            else if hit ''salinity'' then salinity_text
            else if hit ''location'' then location_text fl
            else if hit ''float'' then float_text fl
            else if hit ''profile'' then profile_text
            else fallback_text)
       \<and> (hit ''temperature'' \<and> hit ''salinity'' \<longrightarrow>
            generateChatResponse fl query = temperature_text fl)
       \<and> generateChatResponse fl query \<in>
            {temperature_text fl, salinity_text, location_text fl, float_text fl,
             profile_text, fallback_text}
       \<and> generateChatResponse initial_floats query \<in>
            {''I found temperature data from 5 active floats. Average surface temperature is 28.1'' @ deg @
               ''C with variations from 25'' @ deg @ ''C to 29'' @ deg @
               ''C. The thermocline typically occurs around 80-120m depth.'',
             salinity_text,
             ''Currently tracking 5 ARGO floats across the Indian Ocean. Most recent data shows floats distributed between 6'' @
               deg @ ''S-16'' @ deg @ ''S latitude and 65'' @ deg @ ''E-73'' @ deg @ ''E longitude.'',
             ''ARGO float network includes 4 active floats. Each float profiles to 2000m depth every 10 days, collecting T/S data.'',
             profile_text, fallback_text}"
proof -
  have loop: "first_match q (responses fl) =
                (if includes_str q ''temperature'' then Some (temperature_text fl)
                 else if includes_str q ''salinity'' then Some salinity_text
                 else if includes_str q ''location'' then Some (location_text fl)
                 else if includes_str q ''float'' then Some (float_text fl)
                 else if includes_str q ''profile'' then Some profile_text
                 else None)" for q fl
    by (simp add: responses_def)
  have test: "includes_str (toLowerCase query) key = hit key" for key
    unfolding hit_def by (rule includes_str_iff)
  have cascade: "generateChatResponse fl query =
           (if hit ''temperature'' then temperature_text fl
            else if hit ''salinity'' then salinity_text
            else if hit ''location'' then location_text fl
            else if hit ''float'' then float_text fl
            else if hit ''profile'' then profile_text
            else fallback_text)" for fl
    unfolding generateChatResponse_def loop test by simp
  have both: "hit ''temperature'' \<and> hit ''salinity'' \<longrightarrow>
            generateChatResponse fl query = temperature_text fl"
    by (simp add: cascade)
  have six: "generateChatResponse fl query \<in>
            {temperature_text fl, salinity_text, location_text fl, float_text fl,
             profile_text, fallback_text}" for fl
    by (simp add: cascade)
  have fixed: "generateChatResponse initial_floats query \<in>
            {''I found temperature data from 5 active floats. Average surface temperature is 28.1'' @ deg @
               ''C with variations from 25'' @ deg @ ''C to 29'' @ deg @
               ''C. The thermocline typically occurs around 80-120m depth.'',
             salinity_text,
             ''Currently tracking 5 ARGO floats across the Indian Ocean. Most recent data shows floats distributed between 6'' @
               deg @ ''S-16'' @ deg @ ''S latitude and 65'' @ deg @ ''E-73'' @ deg @ ''E longitude.'',
             ''ARGO float network includes 4 active floats. Each float profiles to 2000m depth every 10 days, collecting T/S data.'',
             profile_text, fallback_text}"
    using six [of initial_floats]
    unfolding temperature_text_initial location_text_initial float_text_initial .
  show ?thesis using cascade both six fixed by blast
qed

theorem generateChatResponse_first_keyword_witness:
  "(\<exists>before after. toLowerCase ''Salinity and Temperature'' = before @ ''temperature'' @ after)
   \<and> (\<exists>before after. toLowerCase ''Salinity and Temperature'' = before @ ''salinity'' @ after)
   \<and> generateChatResponse initial_floats ''Salinity and Temperature'' =
       temperature_text initial_floats"
proof -
  have "includes_str (toLowerCase ''Salinity and Temperature'') ''temperature''"
    by code_simp
  then have t: "\<exists>before after. toLowerCase ''Salinity and Temperature'' = before @ ''temperature'' @ after"
    by (simp only: includes_str_iff)
  have "includes_str (toLowerCase ''Salinity and Temperature'') ''salinity''"
    by code_simp
  then have s: "\<exists>before after. toLowerCase ''Salinity and Temperature'' = before @ ''salinity'' @ after"
    by (simp only: includes_str_iff)
  show ?thesis
    using t s generateChatResponse_first_keyword [of initial_floats "''Salinity and Temperature''"]
    by blast
qed

text \<open>
  C6. With the chat interface displayed and an input value that consists of white space
  only (or is empty), the trimmed text is empty and \<open>sendChatMessage\<close> returns without any
  change of the state: no transcript entry, no timer, no history record, the input is not
  cleared.
\<close>

theorem sendChatMessage_blank_rejected:
  assumes "mainContent st = UserDashboard (ChatInterface el v)"
    and "\<forall>c \<in> set v. is_trim_char c"
  shows "trim v = [] \<and> sendChatMessage st = Done st"
  using assms by (simp add: sendChatMessage_def trim_empty_iff)

theorem sendChatMessage_blank_rejected_witness:
  "mainContent (chat_typed [CHR '' '', CHR 0x09, CHR '' '']) =
     UserDashboard (ChatInterface 0 [CHR '' '', CHR 0x09, CHR '' ''])
   \<and> sendChatMessage (chat_typed [CHR '' '', CHR 0x09, CHR '' '']) =
       Done (chat_typed [CHR '' '', CHR 0x09, CHR '' ''])"
proof -
  have m: "mainContent (chat_typed [CHR '' '', CHR 0x09, CHR '' '']) =
     UserDashboard (ChatInterface 0 [CHR '' '', CHR 0x09, CHR '' ''])"
    by (simp add: chat_typed_eq)
  have b: "\<forall>c \<in> set [CHR '' '', CHR 0x09, CHR '' '']. is_trim_char c"
    by (simp add: is_trim_char_def)
  show ?thesis
    using m sendChatMessage_blank_rejected [OF m b] by simp
qed

text \<open>
  C7. For every accepted query the transcript grows by exactly one user entry and, after
  the delay, by exactly one bot entry. The code at the input "type
  \<open>a</p></div><div class=message><p>b\<close> into the chat and send it": the message is accepted
  (its trimmed text is not empty); \<open>sendChatMessage\<close> puts it into the user template as it
  is, and the markup in it ends the element of the template and opens a second one, so the
  transcript grows at once by two elements, neither of which is a user entry that holds the
  message; one second later the callback adds the bot entry, and the exchange has added
  three elements where the claim says two.
\<close>

theorem sendChatMessage_markup_adds_two_elements:
  "trim markup_message = markup_message
   \<and> markup_message \<noteq> []
   \<and> mainContent (chat_typed markup_message) = UserDashboard (ChatInterface 0 markup_message)
   \<and> transcripts (chat_typed markup_message) 0 = Some [greeting_entry]
   \<and> transcripts (state_of (sendChatMessage (chat_typed markup_message))) 0 =
       Some [greeting_entry,
             Elem TagDiv (Some ''message user'') [Text (nl 16), Elem TagP None [Text ''a'']],
             Elem TagDiv (Some ''message'') [Elem TagP None [Text ''b''], Text (nl 12)]]
   \<and> transcripts (elapse 1000 (state_of (sendChatMessage (chat_typed markup_message)))) 0 =
       Some [greeting_entry,
             Elem TagDiv (Some ''message user'') [Text (nl 16), Elem TagP None [Text ''a'']],
             Elem TagDiv (Some ''message'') [Elem TagP None [Text ''b''], Text (nl 12)],
             bot_entry fallback_text]"
proof -
  let ?st = "chat_typed markup_message"
  have t: "trim markup_message = markup_message" by code_simp
  have ne: "markup_message \<noteq> []" by (simp add: markup_message_def)
  have m: "mainContent ?st = UserDashboard (ChatInterface 0 markup_message)"
    by (simp add: chat_typed_eq)
  have g: "transcripts ?st 0 = Some [greeting_entry]"
    by (simp add: chat_typed_eq logged_in_user_eq fresh_app_eq)
  have e: "timers ?st = []" "argoFloats ?st = initial_floats"
    by (simp_all add: chat_typed_eq logged_in_user_eq fresh_app_eq)
  have r: "generateChatResponse initial_floats markup_message = fallback_text"
    by code_simp
  have p: "innerHTML_append (user_markup markup_message) (Some [greeting_entry]) =
       Some [greeting_entry,
             Elem TagDiv (Some ''message user'') [Text (nl 16), Elem TagP None [Text ''a'']],
             Elem TagDiv (Some ''message'') [Elem TagP None [Text ''b''], Text (nl 12)]]"
    by code_simp
  have accepted: "trim markup_message \<noteq> []" using t ne by simp
  note sent = sendChatMessage_accepted [OF m accepted]
  have after: "transcripts (state_of (sendChatMessage ?st)) 0 =
       Some [greeting_entry,
             Elem TagDiv (Some ''message user'') [Text (nl 16), Elem TagP None [Text ''a'']],
             Elem TagDiv (Some ''message'') [Elem TagP None [Text ''b''], Text (nl 12)]]"
    by (simp add: sent t g p)
  have single: "timers (state_of (sendChatMessage ?st)) =
                  [(clock ?st + 1000, AppendBotMessage 0 fallback_text)]"
    by (simp add: sent t e r)
  have clk: "clock (state_of (sendChatMessage ?st)) = clock ?st" by (simp add: sent)
  have later: "transcripts (elapse 1000 (state_of (sendChatMessage ?st))) 0 =
       Some [greeting_entry,
             Elem TagDiv (Some ''message user'') [Text (nl 16), Elem TagP None [Text ''a'']],
             Elem TagDiv (Some ''message'') [Elem TagP None [Text ''b''], Text (nl 12)],
             bot_entry fallback_text]"
    using after
    by (simp add: elapse_single [OF single] clk run_callback_def
        append_bot_markup [OF plain_texts(6) texts_nonempty(6)])
  show ?thesis using t ne m g after later by simp
qed

text \<open>
  C8. The float list is immutable within a session: no event (a method call, an edit of
  an input, a write to the storage, the passing of time) and no deferred callback changes
  \<open>argoFloats\<close>, and in every state a session can reach it is the initial list of five
  records.
\<close>

theorem argoFloats_never_mutated:
  "argoFloats (perform a st) = argoFloats st
   \<and> (\<forall>cb. argoFloats (state_of (run_callback cb st)) = argoFloats st)
   \<and> (reachable st \<longrightarrow> argoFloats st = initial_floats \<and> length (argoFloats st) = 5)"
proof -
  have "argoFloats (state_of (run_callback cb st)) = argoFloats st" for cb
    using run_callback_data [of st cb] by (simp add: same_data_def)
  moreover have "argoFloats st = initial_floats \<and> length (argoFloats st) = 5" if "reachable st"
    using reachable_data [OF that] by (simp add: initial_floats_def)
  ultimately show ?thesis using perform_floats [of a st] by blast
qed

theorem argoFloats_never_mutated_witness:
  "reachable (perform SendChatMessage (chat_typed ''float status''))
   \<and> argoFloats (perform SendChatMessage (chat_typed ''float status'')) = initial_floats"
proof -
  have "reachable fresh_app" unfolding fresh_app_def by (rule reachable.start)
  then have "reachable logged_in_user"
    unfolding logged_in_user_def login_form_filled_def by (intro reachable.step)
  then have r: "reachable (perform SendChatMessage (chat_typed ''float status''))"
    unfolding chat_typed_def by (intro reachable.step)
  show ?thesis
    using r argoFloats_never_mutated [of SendChatMessage "perform SendChatMessage (chat_typed ''float status'')"]
    by simp
qed

text \<open>
  C9. With the chatbot database form displayed, \<open>updateChatbotDB\<close> changes the marker in
  \<open>updateStatus\<close> and nothing else: the marker is the failure marker exactly when
  \<open>JSON.parse\<close> throws on the training text and the success marker otherwise, whatever
  the parsed value is (the bare number \<open>42\<close> succeeds, see the witness).
\<close>

theorem updateChatbotDB_marker:
  assumes "mainContent st = AdminDashboard (ChatbotDB text old)"
  shows "updateChatbotDB st =
           Done (st\<lparr>mainContent := AdminDashboard
                      (ChatbotDB text
                         (if JSON_parse (lit text) = None then UpdateFailed else UpdateSucceeded))\<rparr>)"
  using assms by (auto simp: updateChatbotDB_def)

theorem updateChatbotDB_marker_witness:
  "mainContent (training_typed ''42'') = AdminDashboard (ChatbotDB ''42'' NoUpdate)
   \<and> updateChatbotDB (training_typed ''42'') =
       Done ((training_typed ''42'')\<lparr>mainContent := AdminDashboard (ChatbotDB ''42'' UpdateSucceeded)\<rparr>)
   \<and> mainContent (training_typed ''[{'') = AdminDashboard (ChatbotDB ''[{'' NoUpdate)
   \<and> updateChatbotDB (training_typed ''[{'') =
       Done ((training_typed ''[{'')\<lparr>mainContent := AdminDashboard (ChatbotDB ''[{'' UpdateFailed)\<rparr>)"
proof -
  have m1: "mainContent (training_typed ''42'') = AdminDashboard (ChatbotDB ''42'' NoUpdate)"
    by (simp add: training_typed_eq)
  have m2: "mainContent (training_typed ''[{'') = AdminDashboard (ChatbotDB ''[{'' NoUpdate)"
    by (simp add: training_typed_eq)
  show ?thesis
    using m1 m2 updateChatbotDB_marker [OF m1] updateChatbotDB_marker [OF m2]
    by (simp add: parse_bare_number parse_unclosed)
qed

text \<open>
  C10. In every state a session can reach, every turn of the chat history holds the reply
  that the resolver gives to the turn's user text; an accepted message appends the
  complete turn (user text, reply, time) at once, and neither the passing of time nor
  any deferred callback changes the history afterwards.
\<close>

theorem chatHistory_turns_complete:
  assumes "reachable st"
  shows "(\<forall>t \<in> set (chatHistory st). bot t = generateChatResponse initial_floats (user t))
       \<and> (\<forall>el v. mainContent st = UserDashboard (ChatInterface el v) \<and> trim v \<noteq> [] \<longrightarrow>
             chatHistory (state_of (sendChatMessage st)) =
               chatHistory st @
                 [\<lparr>user = trim v, bot = generateChatResponse initial_floats (trim v),
                   timestamp = clock st\<rparr>])
       \<and> (\<forall>dt. chatHistory (elapse dt st) = chatHistory st)
       \<and> (\<forall>cb. chatHistory (state_of (run_callback cb st)) = chatHistory st)"
proof -
  have inv: "argoFloats st = initial_floats" "history_complete initial_floats (chatHistory st)"
    using reachable_data [OF assms] by simp_all
  have 1: "\<forall>t \<in> set (chatHistory st). bot t = generateChatResponse initial_floats (user t)"
    using inv(2) by (simp add: history_complete_def)
  have 2: "chatHistory (state_of (sendChatMessage st)) =
               chatHistory st @
                 [\<lparr>user = trim v, bot = generateChatResponse initial_floats (trim v),
                   timestamp = clock st\<rparr>]"
    if "mainContent st = UserDashboard (ChatInterface el v) \<and> trim v \<noteq> []" for el v
    using that sendChatMessage_accepted [of st el v] inv(1) by simp
  have 3: "chatHistory (elapse dt st) = chatHistory st" for dt
    using elapse_data [of st dt] by (simp add: same_data_def)
  have 4: "chatHistory (state_of (run_callback cb st)) = chatHistory st" for cb
    using run_callback_data [of st cb] by (simp add: same_data_def)
  show ?thesis using 1 2 3 4 by blast
qed

theorem chatHistory_turns_complete_witness:
  "reachable (perform SendChatMessage (chat_typed ''xyz''))
   \<and> chatHistory (perform SendChatMessage (chat_typed ''xyz'')) =
       [\<lparr>user = ''xyz'', bot = fallback_text, timestamp = 1700000000000\<rparr>]
   \<and> chatHistory (elapse 1000 (perform SendChatMessage (chat_typed ''xyz''))) =
       [\<lparr>user = ''xyz'', bot = fallback_text, timestamp = 1700000000000\<rparr>]"
proof -
  have "reachable fresh_app" unfolding fresh_app_def by (rule reachable.start)
  then have "reachable logged_in_user"
    unfolding logged_in_user_def login_form_filled_def by (intro reachable.step)
  then have r0: "reachable (chat_typed ''xyz'')"
    unfolding chat_typed_def by (intro reachable.step)
  then have r: "reachable (perform SendChatMessage (chat_typed ''xyz''))"
    by (rule reachable.step)
  have m: "mainContent (chat_typed ''xyz'') = UserDashboard (ChatInterface 0 ''xyz'')"
    by (simp add: chat_typed_eq)
  have t: "trim ''xyz'' = ''xyz''" by code_simp
  have g: "generateChatResponse initial_floats ''xyz'' = fallback_text" by code_simp
  have h: "chatHistory (chat_typed ''xyz'') = []" "clock (chat_typed ''xyz'') = 1700000000000"
    by (simp_all add: chat_typed_eq logged_in_user_eq fresh_app_eq)
  have sent: "chatHistory (perform SendChatMessage (chat_typed ''xyz'')) =
       [\<lparr>user = ''xyz'', bot = fallback_text, timestamp = 1700000000000\<rparr>]"
    using chatHistory_turns_complete [OF r0] m by (simp add: t g h)
  show ?thesis
    using r sent chatHistory_turns_complete [OF r] by simp
qed

end
